theory Spec2Isabelle
  imports Complex_Main "HOL-Library.AList"
begin

section \<open>Python values: errors and dictionaries\<close>

text \<open>
  The risk-scoring engine is Python. A \<open>float\<close> is modelled as a \<open>real\<close> (finite and
  exact: no rounding, no NaN, no infinity; the rounding of doubles is written out in a
  section of its own, for the one property it decides), an \<open>int\<close> as an \<open>int\<close>, a
  \<open>str\<close> as a \<open>string\<close>. Every exception the code can raise is a value of \<open>py_error\<close>, and a
  function that can raise returns \<open>py_error + 'a\<close>.
\<close>

datatype py_error =
    KeyError string
  | ZeroDivisionError
  | RuntimeError string
  | FileNotFoundError string
  | TypeError
  | AttributeError

text \<open>
  A \<open>dict\<close> keeps its keys in insertion order; it is an association list, read with
  \<open>map_of\<close> and written with \<open>AList.update\<close> (in place when the key is there, at the
  end when it is new, as Python does).
\<close>

type_synonym 'a dict = "(string \<times> 'a) list"

definition getitem :: "'a dict \<Rightarrow> string \<Rightarrow> py_error + 'a" where
  \<comment> \<open>\<open>d[k]\<close>\<close>
  "getitem d k = (case map_of d k of None \<Rightarrow> Inl (KeyError k) | Some v \<Rightarrow> Inr v)"

definition dict_get :: "'a dict \<Rightarrow> string \<Rightarrow> 'a \<Rightarrow> 'a" where
  \<comment> \<open>\<open>d.get(k, default)\<close>\<close>
  "dict_get d k dflt = (case map_of d k of None \<Rightarrow> dflt | Some v \<Rightarrow> v)"

definition dict_of_pairs :: "(string \<times> 'a) list \<Rightarrow> 'a dict" where
  \<comment> \<open>a dict comprehension \<open>{k: v for k, v in pairs}\<close>\<close>
  "dict_of_pairs ps = foldl (\<lambda>d (k, v). AList.update k v d) [] ps"

definition dict_values :: "'a dict \<Rightarrow> 'a list" where
  \<comment> \<open>\<open>d.values()\<close>\<close>
  "dict_values d = map snd d"

section \<open>Training pipeline (train\_model.py)\<close>

definition FEATURE_ORDER :: "string list" where
  "FEATURE_ORDER =
     [''age'', ''sex'', ''cp'', ''trestbps'', ''chol'', ''fbs'', ''restecg'',
      ''thalach'', ''exang'', ''oldpeak'', ''slope'', ''ca'', ''thal'']"

definition sigmoid :: "real \<Rightarrow> real" where
  "sigmoid v = (let capped = max (min v 60) (- 60) in 1 / (1 + exp (- capped)))"

subsection \<open>compute\_scaling\<close>

text \<open>The list comprehension \<open>[entry[feature] for entry in rows]\<close>.\<close>

fun column :: "real dict list \<Rightarrow> string \<Rightarrow> py_error + real list" where
  "column [] feature = Inr []"
| "column (entry # rows) feature =
     (case getitem entry feature of
        Inl e \<Rightarrow> Inl e
      | Inr v \<Rightarrow> (case column rows feature of Inl e \<Rightarrow> Inl e | Inr vs \<Rightarrow> Inr (v # vs)))"

text \<open>
  The body of the loop over the features: mean, population variance, and the standard
  deviation with \<open>or 1.0\<close> (a float is falsy exactly when it is zero). Dividing by
  \<open>len(values)\<close> raises when there is no row.
\<close>

definition feature_scaling :: "real dict list \<Rightarrow> string \<Rightarrow> py_error + real dict" where
  "feature_scaling rows feature =
     (case column rows feature of
        Inl e \<Rightarrow> Inl e
      | Inr vals \<Rightarrow>
          if length vals = 0 then Inl ZeroDivisionError
          else
            let mean = sum_list vals / real (length vals);
                variance = sum_list (map (\<lambda>v. (v - mean) ^ 2) vals) / real (length vals);
                std = (if sqrt variance = 0 then 1 else sqrt variance)
            in Inr [(''mean'', mean), (''std'', std)])"

fun compute_scaling_loop ::
  "real dict list \<Rightarrow> string list \<Rightarrow> real dict dict \<Rightarrow> py_error + real dict dict" where
  "compute_scaling_loop rows [] scaling = Inr scaling"
| "compute_scaling_loop rows (feature # features) scaling =
     (case feature_scaling rows feature of
        Inl e \<Rightarrow> Inl e
      | Inr d \<Rightarrow> compute_scaling_loop rows features (AList.update feature d scaling))"

definition compute_scaling :: "real dict list \<Rightarrow> py_error + real dict dict" where
  "compute_scaling rows = compute_scaling_loop rows FEATURE_ORDER []"

subsection \<open>scale\_row\<close>

text \<open>
  The expression \<open>(value - stats["mean"]) / stats["std"]\<close>, which the training-time
  scaler and the inference-time vector construction both evaluate: the two lookups in
  the order Python makes them, then the division, which raises on a zero \<open>std\<close>.
\<close>

definition zscore :: "real \<Rightarrow> real dict \<Rightarrow> py_error + real" where
  "zscore val stats =
     (case getitem stats ''mean'' of
        Inl e \<Rightarrow> Inl e
      | Inr mean \<Rightarrow>
          (case getitem stats ''std'' of
             Inl e \<Rightarrow> Inl e
           | Inr std \<Rightarrow> if std = 0 then Inl ZeroDivisionError else Inr ((val - mean) / std)))"

definition scale_feature :: "real dict \<Rightarrow> real dict dict \<Rightarrow> string \<Rightarrow> py_error + real" where
  \<comment> \<open>\<open>(row[feature] - scaling[feature]["mean"]) / scaling[feature]["std"]\<close>\<close>
  "scale_feature row scaling feature =
     (case getitem row feature of
        Inl e \<Rightarrow> Inl e
      | Inr val \<Rightarrow>
          (case getitem scaling feature of Inl e \<Rightarrow> Inl e | Inr stats \<Rightarrow> zscore val stats))"

fun scale_row_loop :: "real dict \<Rightarrow> real dict dict \<Rightarrow> string list \<Rightarrow> py_error + real list" where
  "scale_row_loop row scaling [] = Inr []"
| "scale_row_loop row scaling (feature # features) =
     (case scale_feature row scaling feature of
        Inl e \<Rightarrow> Inl e
      | Inr x \<Rightarrow>
          (case scale_row_loop row scaling features of
             Inl e \<Rightarrow> Inl e
           | Inr xs \<Rightarrow> Inr (x # xs)))"

definition scale_row :: "real dict \<Rightarrow> real dict dict \<Rightarrow> py_error + real list" where
  "scale_row row scaling = scale_row_loop row scaling FEATURE_ORDER"

subsection \<open>normalize\_importance\<close>

definition normalize_importance :: "real list \<Rightarrow> real dict" where
  "normalize_importance weights =
     (let raw = dict_of_pairs (map (\<lambda>(feature, weight). (feature, \<bar>weight\<bar>))
                                 (zip FEATURE_ORDER weights));
          s = sum_list (dict_values raw);
          total = (if s = 0 then 1 else s)
      in dict_of_pairs (map (\<lambda>(feature, v). (feature, v / total)) raw))"

section \<open>Request and response records (schemas.py)\<close>

datatype SexEnum = male | female

datatype ChestPainEnum = typical | atypical | non_anginal | asymptomatic

datatype RestECGEnum = normal | st_t_abnormality | hypertrophy

datatype SlopeEnum = up | flat | down

datatype ThalEnum = normal | fixed_defect | reversible_defect

text \<open>The \<open>.value\<close> of each enumeration member: the string the mapping tables are keyed by.\<close>

fun SexEnum_value :: "SexEnum \<Rightarrow> string" where
  "SexEnum_value male = ''male''"
| "SexEnum_value female = ''female''"

fun ChestPainEnum_value :: "ChestPainEnum \<Rightarrow> string" where
  "ChestPainEnum_value typical = ''typical_angina''"
| "ChestPainEnum_value atypical = ''atypical_angina''"
| "ChestPainEnum_value non_anginal = ''non_anginal''"
| "ChestPainEnum_value asymptomatic = ''asymptomatic''"

fun RestECGEnum_value :: "RestECGEnum \<Rightarrow> string" where
  "RestECGEnum_value RestECGEnum.normal = ''normal''"
| "RestECGEnum_value st_t_abnormality = ''st_t_abnormality''"
| "RestECGEnum_value hypertrophy = ''left_ventricular_hypertrophy''"

fun SlopeEnum_value :: "SlopeEnum \<Rightarrow> string" where
  "SlopeEnum_value up = ''upsloping''"
| "SlopeEnum_value flat = ''flat''"
| "SlopeEnum_value down = ''downsloping''"

fun ThalEnum_value :: "ThalEnum \<Rightarrow> string" where
  "ThalEnum_value ThalEnum.normal = ''normal''"
| "ThalEnum_value fixed_defect = ''fixed_defect''"
| "ThalEnum_value reversible_defect = ''reversible_defect''"

text \<open>
  The dataclasses, field by field. Two fields are renamed, since the names are taken:
  \<open>notes\<close> of the request is \<open>req_notes\<close>, and \<open>name\<close> of the response is
  \<open>resp_name\<close>.
\<close>

record HealthPredictionRequest =
  name :: string
  age :: int
  sex :: SexEnum
  chest_pain_type :: ChestPainEnum
  bp_systolic :: real
  bp_diastolic :: real
  cholesterol :: real
  sugar_level :: real
  calories_burned :: real
  max_heart_rate :: real
  resting_ecg :: RestECGEnum
  exercise_angina :: bool
  st_depression :: real
  slope :: SlopeEnum
  num_major_vessels :: int
  thalassemia :: ThalEnum
  fasting_hours :: real
  smoker :: bool
  diabetic :: bool
  emergency_contacts :: "string list"
  req_notes :: "string option"

record HealthyRange =
  low :: real
  high :: real

record ChartDatum =
  label :: string
  user_value :: real
  recommended :: HealthyRange
  population_avg :: real

record HealthPredictionResponse =
  resp_name :: string
  risk_category :: string
  risk_score :: real
  probability :: real
  classification :: int
  advisory_message :: string
  chart :: "ChartDatum list"
  key_insights :: "string list"
  feature_importance :: "real dict"
  recommended_actions :: "string list"

section \<open>Inference engine (predictor.py)\<close>

definition CHEST_PAIN_MAPPING :: "int dict" where
  "CHEST_PAIN_MAPPING =
     [(''typical_angina'', 1), (''atypical_angina'', 2), (''non_anginal'', 3),
      (''asymptomatic'', 4)]"

definition REST_ECG_MAPPING :: "int dict" where
  "REST_ECG_MAPPING =
     [(''normal'', 0), (''st_t_abnormality'', 1), (''left_ventricular_hypertrophy'', 2)]"

definition SLOPE_MAPPING :: "int dict" where
  "SLOPE_MAPPING = [(''upsloping'', 1), (''flat'', 2), (''downsloping'', 3)]"

definition THAL_MAPPING :: "int dict" where
  "THAL_MAPPING = [(''normal'', 3), (''fixed_defect'', 6), (''reversible_defect'', 7)]"

text \<open>
  The state of a \<open>HeartAttackPredictor\<close> that \<open>predict\<close> reads, at the types its
  annotations give. \<open>p_stats\<close> and \<open>p_feature_importance\<close> are the attributes
  \<open>_stats\<close> and \<open>_feature_importance\<close>.
\<close>

record HeartAttackPredictor =
  feature_order :: "string list"
  weights :: "real list"
  bias :: real
  scaling :: "real dict dict"
  p_stats :: "real dict dict"
  p_feature_importance :: "real dict"

subsection \<open>\_request\_vector\<close>

text \<open>The dict \<open>row\<close> of the thirteen raw feature values, built key by key.\<close>

definition request_row :: "HealthPredictionRequest \<Rightarrow> py_error + real dict" where
  "request_row payload =
     (case getitem CHEST_PAIN_MAPPING (ChestPainEnum_value (chest_pain_type payload)) of
        Inl e \<Rightarrow> Inl e
      | Inr cp \<Rightarrow>
     (case getitem REST_ECG_MAPPING (RestECGEnum_value (resting_ecg payload)) of
        Inl e \<Rightarrow> Inl e
      | Inr restecg \<Rightarrow>
     (case getitem SLOPE_MAPPING (SlopeEnum_value (slope payload)) of
        Inl e \<Rightarrow> Inl e
      | Inr slp \<Rightarrow>
     (case getitem THAL_MAPPING (ThalEnum_value (thalassemia payload)) of
        Inl e \<Rightarrow> Inl e
      | Inr thal \<Rightarrow>
          Inr (dict_of_pairs
            [(''age'', real_of_int (age payload)),
             (''sex'', if SexEnum_value (sex payload) = ''male'' then 1 else 0),
             (''cp'', real_of_int cp),
             (''trestbps'', bp_systolic payload),
             (''chol'', cholesterol payload),
             (''fbs'', if sugar_level payload \<ge> 126 then 1 else 0),
             (''restecg'', real_of_int restecg),
             (''thalach'', max_heart_rate payload),
             (''exang'', if exercise_angina payload then 1 else 0),
             (''oldpeak'', st_depression payload),
             (''slope'', real_of_int slp),
             (''ca'', real_of_int (num_major_vessels payload)),
             (''thal'', real_of_int thal)])))))"

text \<open>
  One turn of the loop over \<open>feature_order\<close>: \<open>stats = self.scaling.get(feature)\<close>,
  \<open>value = row[feature]\<close>, and the z-score when \<open>stats\<close> is truthy (there, and not the
  empty dict).
\<close>

definition vector_entry :: "real dict dict \<Rightarrow> real dict \<Rightarrow> string \<Rightarrow> py_error + real" where
  "vector_entry scal row feature =
     (let stats = map_of scal feature in
      case getitem row feature of
        Inl e \<Rightarrow> Inl e
      | Inr val \<Rightarrow>
          (case stats of
             None \<Rightarrow> Inr val
           | Some st \<Rightarrow> if st = [] then Inr val else zscore val st))"

fun request_vector_loop ::
  "real dict dict \<Rightarrow> real dict \<Rightarrow> string list \<Rightarrow> real list \<Rightarrow> py_error + real list" where
  "request_vector_loop scal row [] vector = Inr vector"
| "request_vector_loop scal row (feature # features) vector =
     (case vector_entry scal row feature of
        Inl e \<Rightarrow> Inl e
      | Inr x \<Rightarrow> request_vector_loop scal row features (vector @ [x]))"

definition request_vector ::
  "HeartAttackPredictor \<Rightarrow> HealthPredictionRequest \<Rightarrow> py_error + real list" where
  "request_vector self payload =
     (case request_row payload of
        Inl e \<Rightarrow> Inl e
      | Inr row \<Rightarrow> request_vector_loop (scaling self) row (feature_order self) [])"

subsection \<open>\_predict\_probability and \_categorize\_risk\<close>

definition predict_probability :: "HeartAttackPredictor \<Rightarrow> real list \<Rightarrow> real" where
  "predict_probability self vector =
     (let score = sum_list (map (\<lambda>(weight, x). weight * x) (zip (weights self) vector))
                  + bias self;
          capped = max (min score 60) (- 60)
      in 1 / (1 + exp (- capped)))"

definition categorize_risk :: "real \<Rightarrow> string" where
  "categorize_risk p =
     (if p < 0.33 then ''Low'' else if p < 0.66 then ''Moderate'' else ''High'')"

subsection \<open>\_chart\_data\<close>

definition upper_char :: "char \<Rightarrow> char" where
  "upper_char c =
     (case map_of (zip ''abcdefghijklmnopqrstuvwxyz'' ''ABCDEFGHIJKLMNOPQRSTUVWXYZ'') c of
        None \<Rightarrow> c | Some u \<Rightarrow> u)"

definition lower_char :: "char \<Rightarrow> char" where
  "lower_char c =
     (case map_of (zip ''ABCDEFGHIJKLMNOPQRSTUVWXYZ'' ''abcdefghijklmnopqrstuvwxyz'') c of
        None \<Rightarrow> c | Some l \<Rightarrow> l)"

definition is_cased :: "char \<Rightarrow> bool" where
  "is_cased c \<longleftrightarrow>
     c \<in> set ''abcdefghijklmnopqrstuvwxyzABCDEFGHIJKLMNOPQRSTUVWXYZ''"

text \<open>
  \<open>str.title()\<close> on ASCII text: a letter that follows a letter is lowered, any other
  letter is raised. The flag says whether the previous character was a letter.
\<close>

fun title_from :: "bool \<Rightarrow> string \<Rightarrow> string" where
  "title_from prev [] = []"
| "title_from prev (c # cs) =
     (if is_cased c then (if prev then lower_char c else upper_char c) # title_from True cs
      else c # title_from False cs)"

definition chart_label :: "string \<Rightarrow> string" where
  \<comment> \<open>\<open>field.replace("_", " ").title()\<close>\<close>
  "chart_label field =
     title_from False (map (\<lambda>c. if c = CHR ''_'' then CHR '' '' else c) field)"

fun chart_loop ::
  "real dict dict \<Rightarrow> (string \<times> real) list \<Rightarrow> ChartDatum list \<Rightarrow> py_error + ChartDatum list" where
  "chart_loop sts [] chart_acc = Inr chart_acc"
| "chart_loop sts ((field, val) # rest) chart_acc =
     (case map_of sts field of
        None \<Rightarrow> chart_loop sts rest chart_acc
      | Some st \<Rightarrow>
          if st = [] then chart_loop sts rest chart_acc
          else
            (case getitem st ''healthy_low'' of
               Inl e \<Rightarrow> Inl e
             | Inr lo \<Rightarrow>
            (case getitem st ''healthy_high'' of
               Inl e \<Rightarrow> Inl e
             | Inr hi \<Rightarrow>
            (case getitem st ''mean'' of
               Inl e \<Rightarrow> Inl e
             | Inr avg \<Rightarrow>
                 chart_loop sts rest
                   (chart_acc @
                    [\<lparr>label = chart_label field, user_value = val,
                      recommended = \<lparr>low = lo, high = hi\<rparr>,
                      population_avg = avg\<rparr>])))))"

definition chart_data ::
  "HeartAttackPredictor \<Rightarrow> HealthPredictionRequest \<Rightarrow> py_error + ChartDatum list" where
  "chart_data self payload =
     chart_loop (p_stats self)
       [(''bp_systolic'', bp_systolic payload),
        (''cholesterol'', cholesterol payload),
        (''max_heart_rate'', max_heart_rate payload),
        (''sugar_level'', sugar_level payload)]
       []"

subsection \<open>\_insights and \_recommendations\<close>

definition INSIGHT_BP :: string where
  "INSIGHT_BP =
     ''Blood pressure is above the 90th percentile of the dataset, indicating excess arterial strain.''"

definition INSIGHT_CHOLESTEROL :: string where
  "INSIGHT_CHOLESTEROL =
     ''Cholesterol is significantly elevated compared to peers in the dataset.''"

definition INSIGHT_ANGINA :: string where
  "INSIGHT_ANGINA =
     ''Exercise-induced angina reported; schedule a stress test at the earliest.''"

definition INSIGHT_SUGAR :: string where
  "INSIGHT_SUGAR =
     ''Fasting sugar indicates possible diabetes; coordinate with an endocrinologist.''"

definition INSIGHT_CALORIES :: string where
  "INSIGHT_CALORIES =
     ''Weekly calorie burn is below the recommended range; integrate moderate activity.''"

definition INSIGHT_NONE :: string where
  "INSIGHT_NONE =
     ''Vitals fall inside the population averages; maintain the current lifestyle and monitoring cadence.''"

definition insights :: "HeartAttackPredictor \<Rightarrow> HealthPredictionRequest \<Rightarrow> string list" where
  "insights self payload =
     (let bp_stats = dict_get (p_stats self) ''bp_systolic'' [];
          i1 = (if bp_stats \<noteq> [] \<and>
                   bp_systolic payload > dict_get bp_stats ''p90'' (bp_systolic payload + 1)
                then [INSIGHT_BP] else []);
          chol_stats = dict_get (p_stats self) ''cholesterol'' [];
          i2 = (if chol_stats \<noteq> [] \<and>
                   cholesterol payload > dict_get chol_stats ''p90'' (cholesterol payload + 1)
                then i1 @ [INSIGHT_CHOLESTEROL] else i1);
          i3 = (if exercise_angina payload then i2 @ [INSIGHT_ANGINA] else i2);
          i4 = (if sugar_level payload \<ge> 126 then i3 @ [INSIGHT_SUGAR] else i3);
          i5 = (if calories_burned payload
                     < dict_get (dict_get (p_stats self) ''calories_burned'' []) ''healthy_low'' 1500
                then i4 @ [INSIGHT_CALORIES] else i4)
      in if i5 = [] then i5 @ [INSIGHT_NONE] else i5)"

definition REC_LOG :: string where
  "REC_LOG = ''Log BP, sugar, and symptoms daily to capture subtle drifts.''"

definition REC_SHARE :: string where
  "REC_SHARE = ''Share this summary with your cardiologist for medication alignment.''"

definition REC_LIPID :: string where
  "REC_LIPID = ''Book a complete lipid profile and stress ECG within the next 7 days.''"

definition REC_NITRATE :: string where
  "REC_NITRATE =
     ''Keep sublingual nitrate handy and avoid strenuous workouts until cleared.''"

definition REC_WALK :: string where
  "REC_WALK = ''Walk 30 minutes/day or follow physician-approved cardio rehab plan.''"

definition REC_SUGAR :: string where
  "REC_SUGAR = ''Bring fasting sugar under 110 mg/dL through diet, metformin, or both.''"

definition recommendations :: "string \<Rightarrow> HealthPredictionRequest \<Rightarrow> string list" where
  "recommendations risk payload =
     (let r0 = [REC_LOG, REC_SHARE];
          r1 = (if risk \<noteq> ''Low'' then r0 @ [REC_LIPID] @ [REC_NITRATE] else r0);
          r2 = (if calories_burned payload < 1500 then r1 @ [REC_WALK] else r1);
          r3 = (if sugar_level payload \<ge> 126 then r2 @ [REC_SUGAR] else r2)
      in r3)"

subsection \<open>predict\<close>

text \<open>
  \<open>round(x, 2)\<close> on an exact number: to the nearest hundredth, a tie to the even one.
\<close>

definition py_round2 :: "real \<Rightarrow> real" where
  "py_round2 x =
     (let y = x * 100; n = \<lfloor>y\<rfloor>; d = y - of_int n
      in (if d < 1 / 2 then of_int n
          else if 1 / 2 < d then of_int (n + 1)
          else if even n then of_int n else of_int (n + 1)) / 100)"

definition predict ::
  "HeartAttackPredictor \<Rightarrow> HealthPredictionRequest \<Rightarrow> py_error + HealthPredictionResponse" where
  "predict self payload =
     (if weights self = [] then Inl (RuntimeError ''Model weights missing'')
      else
        case request_vector self payload of
          Inl e \<Rightarrow> Inl e
        | Inr vector \<Rightarrow>
            let prob = predict_probability self vector;
                cls = (if prob \<ge> 0.5 then 1 else 0);
                risk = categorize_risk prob;
                score = py_round2 (prob * 100);
                advisory = (if risk = ''High'' then ''High myocardial infarction risk detected.''
                            else ''Risk is manageable with standard precautions.'')
            in case chart_data self payload of
                 Inl e \<Rightarrow> Inl e
               | Inr chart_points \<Rightarrow>
                   Inr \<lparr>resp_name = name payload,
                        risk_category = risk,
                        risk_score = score,
                        probability = prob,
                        classification = cls,
                        advisory_message = advisory,
                        chart = chart_points,
                        key_insights = insights self payload,
                        feature_importance = p_feature_importance self,
                        recommended_actions = recommendations risk payload\<rparr>)"

text \<open>
  When \<open>predict\<close> raises nothing: the weights are there, every name of
  \<open>feature_order\<close> is one of the thirteen keys of the row, every truthy scaling entry
  it meets has a mean and a non-zero std, and every truthy stats entry of a chart field
  has the three keys the chart reads.
\<close>

definition scaling_entry_ok :: "real dict option \<Rightarrow> bool" where
  "scaling_entry_ok entry =
     (case entry of
        None \<Rightarrow> True
      | Some st \<Rightarrow>
          st = [] \<or>
          (map_of st ''mean'' \<noteq> None \<and>
           (case map_of st ''std'' of None \<Rightarrow> False | Some sd \<Rightarrow> sd \<noteq> 0)))"

definition chart_entry_ok :: "real dict option \<Rightarrow> bool" where
  "chart_entry_ok entry =
     (case entry of
        None \<Rightarrow> True
      | Some st \<Rightarrow>
          st = [] \<or>
          (map_of st ''healthy_low'' \<noteq> None \<and> map_of st ''healthy_high'' \<noteq> None \<and>
           map_of st ''mean'' \<noteq> None))"

definition well_formed_predictor :: "HeartAttackPredictor \<Rightarrow> bool" where
  "well_formed_predictor self \<longleftrightarrow>
     weights self \<noteq> [] \<and>
     list_all (\<lambda>feature. feature \<in> set FEATURE_ORDER \<and>
                          scaling_entry_ok (map_of (scaling self) feature))
              (feature_order self) \<and>
     list_all (\<lambda>field. chart_entry_ok (map_of (p_stats self) field))
              [''bp_systolic'', ''cholesterol'', ''max_heart_rate'', ''sugar_level'']"

section \<open>The model artifact on disk\<close>

text \<open>
  A JSON document as \<open>json.load\<close> returns it and \<open>json.dump\<close> takes it. The file system
  maps a path to the document stored there: writing a document and reading it back are
  the library's, and a stored file holds the document that was dumped. Directories are
  not modelled (\<open>mkdir\<close> changes no file), and a path is the file it names. Of the
  settings, the four paths are kept.
\<close>

datatype json =
    JNull
  | JBool bool
  | JNum real
  | JStr string
  | JArr "json list"
  | JObj "(string \<times> json) list"

type_synonym files = "string \<Rightarrow> json option"

record Settings =
  dataset_path :: string
  model_path :: string
  stats_path :: string
  report_path :: string

definition subscript :: "json \<Rightarrow> string \<Rightarrow> py_error + json" where
  \<comment> \<open>\<open>payload[key]\<close>: only a dict takes a string key\<close>
  "subscript doc k = (case doc of JObj kvs \<Rightarrow> getitem kvs k | _ \<Rightarrow> Inl TypeError)"

definition json_get :: "json \<Rightarrow> string \<Rightarrow> json \<Rightarrow> py_error + json" where
  \<comment> \<open>\<open>payload.get(key, default)\<close>: only a dict has \<open>get\<close>\<close>
  "json_get doc k dflt =
     (case doc of JObj kvs \<Rightarrow> Inr (dict_get kvs k dflt) | _ \<Rightarrow> Inl AttributeError)"

text \<open>
  What \<open>load_artifacts\<close> stores in the predictor: the parsed values as they are, with no
  check of their types or lengths.
\<close>

record LoadedArtifacts =
  raw_feature_order :: json
  raw_weights :: json
  raw_bias :: json
  raw_scaling :: json
  raw_stats :: json
  raw_feature_importance :: json

definition load_artifacts :: "Settings \<Rightarrow> files \<Rightarrow> py_error + LoadedArtifacts" where
  "load_artifacts settings fs =
     (case fs (model_path settings) of
        None \<Rightarrow> Inl (FileNotFoundError (model_path settings))
      | Some payload \<Rightarrow>
     (case fs (stats_path settings) of
        None \<Rightarrow> Inl (FileNotFoundError (stats_path settings))
      | Some stats_payload \<Rightarrow>
     (case subscript payload ''feature_order'' of
        Inl e \<Rightarrow> Inl e
      | Inr fo \<Rightarrow>
     (case subscript payload ''weights'' of
        Inl e \<Rightarrow> Inl e
      | Inr ws \<Rightarrow>
     (case subscript payload ''bias'' of
        Inl e \<Rightarrow> Inl e
      | Inr b \<Rightarrow>
     (case subscript payload ''scaling'' of
        Inl e \<Rightarrow> Inl e
      | Inr sc \<Rightarrow>
     (case json_get stats_payload ''feature_stats'' stats_payload of
        Inl e \<Rightarrow> Inl e
      | Inr sts \<Rightarrow>
     (case fs (report_path settings) of
        None \<Rightarrow>
          Inr \<lparr>raw_feature_order = fo, raw_weights = ws, raw_bias = b, raw_scaling = sc,
               raw_stats = sts, raw_feature_importance = JObj []\<rparr>
      | Some report_payload \<Rightarrow>
          (case json_get report_payload ''feature_importance'' (JObj []) of
             Inl e \<Rightarrow> Inl e
           | Inr imp \<Rightarrow>
               Inr \<lparr>raw_feature_order = fo, raw_weights = ws, raw_bias = b,
                    raw_scaling = sc, raw_stats = sts,
                    raw_feature_importance = imp\<rparr>)))))))))"

text \<open>The three \<open>json.dump\<close> calls of \<open>persist_artifacts\<close>, in their order.\<close>

definition persist_artifacts ::
  "Settings \<Rightarrow> json dict \<Rightarrow> json dict \<Rightarrow> json dict \<Rightarrow> files \<Rightarrow> files" where
  "persist_artifacts settings model_payload feature_stats report fs =
     (let fs1 = fs(model_path settings \<mapsto> JObj model_payload);
          fs2 = fs1(stats_path settings \<mapsto> JObj [(''feature_stats'', JObj feature_stats)]);
          fs3 = fs2(report_path settings \<mapsto> JObj report)
      in fs3)"

section \<open>Double-precision arithmetic\<close>

text \<open>
  Where the rounding of a \<open>float\<close> decides a property, the arithmetic of
  \<open>_predict_probability\<close> is written out in double precision: every operation gives
  the double nearest to the exact result, a tie going to the even significand. A double
  is a real here, with a significand of 53 bits and any exponent (no overflow, no
  subnormal numbers, no NaN).
\<close>

definition round_half_even :: "real \<Rightarrow> int" where
  "round_half_even z =
     (let n = \<lfloor>z\<rfloor>; d = z - of_int n
      in if d < 1 / 2 then n else if 1 / 2 < d then n + 1 else if even n then n else n + 1)"

definition round_double :: "real \<Rightarrow> real" where
  "round_double x =
     (if x = 0 then 0
      else
        let e = \<lfloor>log 2 \<bar>x\<bar>\<rfloor>; ulp = 2 powr (of_int e - 52)
        in of_int (round_half_even (x / ulp)) * ulp)"

text \<open>
  The score \<open>sum(weight * value for ...) + self.bias\<close>, left to right from 0, and the
  probability. \<open>math.exp\<close> is the C library's: it is the parameter \<open>fexp\<close>. The
  comparisons of \<open>min\<close> and \<open>max\<close> and the negation are exact.
\<close>

definition score_double :: "HeartAttackPredictor \<Rightarrow> real list \<Rightarrow> real" where
  "score_double self vector =
     round_double
       (foldl (\<lambda>acc (weight, x). round_double (acc + round_double (weight * x))) 0
              (zip (weights self) vector)
        + bias self)"

definition predict_probability_double ::
  "(real \<Rightarrow> real) \<Rightarrow> HeartAttackPredictor \<Rightarrow> real list \<Rightarrow> real" where
  "predict_probability_double fexp self vector =
     (let score = score_double self vector;
          capped = max (min score 60) (- 60)
      in round_double (1 / round_double (1 + fexp (- capped))))"

text \<open>An instance of \<open>math.exp\<close> for concrete inputs: the correctly rounded exponential.\<close>

definition math_exp :: "real \<Rightarrow> real" where
  "math_exp x = round_double (exp x)"

section \<open>Concrete inputs\<close>

definition constant_row :: "real \<Rightarrow> real dict" where
  "constant_row c = map (\<lambda>feature. (feature, c)) FEATURE_ORDER"

definition example_request :: HealthPredictionRequest where
  "example_request =
     \<lparr>name = ''Asha'', age = 50, sex = female, chest_pain_type = non_anginal,
      bp_systolic = 118, bp_diastolic = 76, cholesterol = 180, sugar_level = 95,
      calories_burned = 2200, max_heart_rate = 150, resting_ecg = RestECGEnum.normal,
      exercise_angina = False, st_depression = 0, slope = up, num_major_vessels = 0,
      thalassemia = ThalEnum.normal, fasting_hours = 8, smoker = False, diabetic = False,
      emergency_contacts = [], req_notes = None\<rparr>"

text \<open>The toy artifact of the specification's scenario, with the trainer's calorie stats.\<close>

definition toy_predictor :: HeartAttackPredictor where
  "toy_predictor =
     \<lparr>feature_order = [''age''], weights = [1], bias = 0,
      scaling = [(''age'', [(''mean'', 50), (''std'', 10)])],
      p_stats = [(''calories_burned'',
                  [(''mean'', 2000), (''p10'', 1200), (''p90'', 3500), (''min'', 800),
                   (''max'', 4000), (''healthy_low'', 1500), (''healthy_high'', 3000)])],
      p_feature_importance = [(''age'', 1)]\<rparr>"

definition default_settings :: Settings where
  "default_settings =
     \<lparr>dataset_path = ''data/heart_uci.csv'',
      model_path = ''backend/ml/models/heart_attack_model.json'',
      stats_path = ''backend/ml/models/feature_stats.json'',
      report_path = ''backend/ml/reports/training_report.json''\<rparr>"

definition uniform_scaling :: "real \<Rightarrow> real \<Rightarrow> real dict dict" where
  "uniform_scaling m s = map (\<lambda>feature. (feature, [(''mean'', m), (''std'', s)])) FEATURE_ORDER"

text \<open>A model whose only feature is fbs, with scaling parameters for it.\<close>

definition fbs_predictor :: HeartAttackPredictor where
  "fbs_predictor =
     \<lparr>feature_order = [''fbs''], weights = [1], bias = 0,
      scaling = [(''fbs'', [(''mean'', 1 / 5), (''std'', 2 / 5)])],
      p_stats = [], p_feature_importance = []\<rparr>"

text \<open>
  The toy predictor with a feature-stats document whose healthy-low bound for the
  calorie burn is 2000 instead of the trainer's 1500.
\<close>

definition strict_stats_predictor :: HeartAttackPredictor where
  "strict_stats_predictor =
     toy_predictor\<lparr>p_stats :=
       [(''calories_burned'',
         [(''mean'', 2000), (''p10'', 1200), (''p90'', 3500), (''min'', 800),
          (''max'', 4000), (''healthy_low'', 2000), (''healthy_high'', 3000)])]\<rparr>"

definition zero_weights :: "real list" where
  "zero_weights = [0, 0, 0, 0, 0, 0, 0, 0, 0, 0, 0, 0, 0]"

definition example_weights :: "real list" where
  "example_weights = [3, - 1, 0, 0, 0, 0, 0, 0, 0, 0, 0, 0, 4]"

text \<open>
  A model document whose feature order has two names and whose weights have one number;
  a file system that holds it with an empty stats document; one whose model document
  lacks the weights; and the toy artifact as the trainer would persist it.
\<close>

definition mismatched_model :: json where
  "mismatched_model =
     JObj [(''feature_order'', JArr [JStr ''age'', JStr ''sex'']),
           (''weights'', JArr [JNum 1]),
           (''bias'', JNum 0),
           (''scaling'', JObj [])]"

definition mismatched_files :: files where
  "mismatched_files =
     [model_path default_settings \<mapsto> mismatched_model,
      stats_path default_settings \<mapsto> JObj []]"

definition missing_weights_files :: files where
  "missing_weights_files =
     [model_path default_settings \<mapsto>
        JObj [(''feature_order'', JArr [JStr ''age'']), (''bias'', JNum 0),
              (''scaling'', JObj [])],
      stats_path default_settings \<mapsto> JObj []]"

definition toy_payload :: "json dict" where
  "toy_payload =
     [(''feature_order'', JArr [JStr ''age'']),
      (''weights'', JArr [JNum 1]),
      (''bias'', JNum 0),
      (''scaling'', JObj [(''age'', JObj [(''mean'', JNum 50), (''std'', JNum 10)])])]"

text \<open>The toy artifact on disk with a report file that holds a JSON array.\<close>

definition array_report_files :: files where
  "array_report_files =
     [model_path default_settings \<mapsto> JObj toy_payload,
      stats_path default_settings \<mapsto> JObj [],
      report_path default_settings \<mapsto> JArr []]"

section \<open>Dictionaries and the feature list\<close>

lemma update_fresh: "k \<notin> fst ` set al \<Longrightarrow> AList.update k v al = al @ [(k, v)]"
  by (induction al) auto

lemma foldl_update_distinct:
  "distinct (map fst (acc @ ps)) \<Longrightarrow>
   foldl (\<lambda>d (k, v). AList.update k v d) acc ps = acc @ ps"
proof (induction ps arbitrary: acc)
  case Nil
  then show ?case by simp
next
  case (Cons p ps)
  obtain k v where p: "p = (k, v)" by (cases p)
  from Cons.prems p have fresh: "k \<notin> fst ` set acc" by auto
  from Cons.prems p have "distinct (map fst ((acc @ [(k, v)]) @ ps))" by simp
  from Cons.IH [OF this] show ?case
    by (simp add: p update_fresh [OF fresh])
qed

lemma dict_of_pairs_distinct: "distinct (map fst ps) \<Longrightarrow> dict_of_pairs ps = ps"
  using foldl_update_distinct [of "[]" ps] by (simp add: dict_of_pairs_def)

lemma distinct_FEATURE_ORDER: "distinct FEATURE_ORDER"
  by (simp add: FEATURE_ORDER_def)

section \<open>The feature scaler\<close>

subsection \<open>compute\_scaling\<close>

lemma column_length: "column rows f = Inr vals \<Longrightarrow> length vals = length rows"
  by (induction rows arbitrary: vals) (auto split: sum.splits)

lemma column_total:
  "\<forall>entry \<in> set rows. map_of entry f \<noteq> None \<Longrightarrow> \<exists>vals. column rows f = Inr vals"
  by (induction rows) (auto simp: getitem_def split: sum.splits option.splits)

lemma feature_scaling_Inr:
  assumes "feature_scaling rows f = Inr d"
  shows "\<exists>vals mu sd. column rows f = Inr vals \<and> rows \<noteq> [] \<and> d = [(''mean'', mu), (''std'', sd)]
           \<and> mu = sum_list vals / real (length vals)
           \<and> sd = (let s = sqrt (sum_list (map (\<lambda>v. (v - mu) ^ 2) vals) / real (length vals))
                   in if s = 0 then 1 else s)
           \<and> 0 < sd"
proof -
  from assms obtain vals where c: "column rows f = Inr vals" and ne: "length vals \<noteq> 0"
    by (auto simp: feature_scaling_def split: sum.splits if_splits)
  define mu where "mu = sum_list vals / real (length vals)"
  define var where "var = sum_list (map (\<lambda>v. (v - mu) ^ 2) vals) / real (length vals)"
  have "0 \<le> var" unfolding var_def
    by (intro divide_nonneg_nonneg sum_list_nonneg) auto
  then have "0 \<le> sqrt var" by simp
  then have pos: "0 < (if sqrt var = 0 then 1 else sqrt var)" by auto
  from assms c ne have d: "d = [(''mean'', mu), (''std'', if sqrt var = 0 then 1 else sqrt var)]"
    by (auto simp add: feature_scaling_def Let_def mu_def var_def)
  from c ne column_length [OF c] have "rows \<noteq> []" by auto
  with c d pos show ?thesis
    unfolding mu_def var_def Let_def by blast
qed

lemma feature_scaling_total:
  assumes "rows \<noteq> []" "\<forall>entry \<in> set rows. map_of entry f \<noteq> None"
  shows "\<exists>d. feature_scaling rows f = Inr d"
proof -
  from column_total [OF assms(2)] obtain vals where c: "column rows f = Inr vals" by blast
  with assms(1) column_length [OF c] show ?thesis
    by (simp add: feature_scaling_def Let_def)
qed

lemma compute_scaling_loop_Inr:
  "compute_scaling_loop rows fs sc = Inr sc' \<Longrightarrow>
   (\<forall>f \<in> set fs. \<exists>d. feature_scaling rows f = Inr d \<and> map_of sc' f = Some d) \<and>
   (\<forall>f. f \<notin> set fs \<longrightarrow> map_of sc' f = map_of sc f)"
proof (induction fs arbitrary: sc)
  case Nil
  then show ?case by simp
next
  case (Cons f fs)
  from Cons.prems obtain d where d: "feature_scaling rows f = Inr d"
    and rest: "compute_scaling_loop rows fs (AList.update f d sc) = Inr sc'"
    by (auto split: sum.splits)
  from Cons.IH [OF rest] have
    in_fs: "\<forall>g \<in> set fs. \<exists>d'. feature_scaling rows g = Inr d' \<and> map_of sc' g = Some d'"
    and out_fs: "\<forall>g. g \<notin> set fs \<longrightarrow> map_of sc' g = map_of (AList.update f d sc) g"
    by blast+
  have "\<exists>d'. feature_scaling rows f = Inr d' \<and> map_of sc' f = Some d'"
  proof (cases "f \<in> set fs")
    case True
    with in_fs show ?thesis by blast
  next
    case False
    with out_fs have "map_of sc' f = Some d" by (simp add: update_conv')
    with d show ?thesis by blast
  qed
  moreover have "\<forall>g. g \<notin> set (f # fs) \<longrightarrow> map_of sc' g = map_of sc g"
    using out_fs by (auto simp: update_conv')
  ultimately show ?case using in_fs by auto
qed

lemma compute_scaling_loop_total:
  "\<forall>f \<in> set fs. \<exists>d. feature_scaling rows f = Inr d \<Longrightarrow>
   \<exists>sc'. compute_scaling_loop rows fs sc = Inr sc'"
  by (induction fs arbitrary: sc) (auto split: sum.splits)

subsection \<open>scale\_row and the z-score\<close>

lemma scale_row_loop_Inr:
  "scale_row_loop row sc fs = Inr v \<Longrightarrow>
   length v = length fs \<and> (\<forall>i < length fs. scale_feature row sc (fs ! i) = Inr (v ! i))"
proof (induction fs arbitrary: v)
  case Nil
  then show ?case by simp
next
  case (Cons f fs)
  from Cons.prems obtain x xs where x: "scale_feature row sc f = Inr x"
    and xs: "scale_row_loop row sc fs = Inr xs" and v: "v = x # xs"
    by (auto split: sum.splits)
  from Cons.IH [OF xs] x v show ?case
    by (auto simp: nth_Cons split: nat.splits)
qed

lemma scale_row_loop_total:
  "\<forall>f \<in> set fs. \<exists>x. scale_feature row sc f = Inr x \<Longrightarrow> \<exists>v. scale_row_loop row sc fs = Inr v"
  by (induction fs) (auto split: sum.splits)

lemma scale_row_loop_error:
  "scale_row_loop row sc fs = Inl e \<Longrightarrow> \<exists>f \<in> set fs. scale_feature row sc f = Inl e"
  by (induction fs) (auto split: sum.splits)

lemma zscore_no_zero_division:
  "map_of st ''std'' = Some sd \<Longrightarrow> sd \<noteq> 0 \<Longrightarrow> zscore x st \<noteq> Inl ZeroDivisionError"
  by (auto simp: zscore_def getitem_def split: option.splits)

lemma scale_feature_no_zero_division:
  assumes "\<And>st. map_of sc f = Some st \<Longrightarrow> \<exists>sd. map_of st ''std'' = Some sd \<and> sd \<noteq> 0"
  shows "scale_feature row sc f \<noteq> Inl ZeroDivisionError"
proof (cases "map_of sc f")
  case None
  then show ?thesis by (simp add: scale_feature_def getitem_def split: option.splits)
next
  case (Some st)
  from assms [OF Some] obtain sd where "map_of st ''std'' = Some sd" "sd \<noteq> 0" by blast
  from zscore_no_zero_division [OF this] Some show ?thesis
    by (simp add: scale_feature_def getitem_def split: option.splits)
qed

lemma scale_feature_Inr:
  "scale_feature row sc f = Inr y \<longleftrightarrow>
   (\<exists>x st mu sd. map_of row f = Some x \<and> map_of sc f = Some st \<and>
      map_of st ''mean'' = Some mu \<and> map_of st ''std'' = Some sd \<and> sd \<noteq> 0 \<and>
      y = (x - mu) / sd)"
  by (auto simp: scale_feature_def zscore_def getitem_def split: option.splits)

lemma zscore_Inr:
  "zscore x st = Inr y \<longleftrightarrow>
   (\<exists>mu sd. map_of st ''mean'' = Some mu \<and> map_of st ''std'' = Some sd \<and> sd \<noteq> 0 \<and>
      y = (x - mu) / sd)"
  by (auto simp: zscore_def getitem_def split: option.splits)

lemma scale_row_returns:
  assumes "\<forall>f \<in> set FEATURE_ORDER. map_of row f \<noteq> None \<and>
             (\<exists>st mu sd. map_of sc f = Some st \<and> map_of st ''mean'' = Some mu \<and>
                          map_of st ''std'' = Some sd \<and> sd \<noteq> 0)"
  shows "\<exists>v. scale_row row sc = Inr v"
proof -
  from assms have "\<forall>f \<in> set FEATURE_ORDER. \<exists>y. scale_feature row sc f = Inr y"
    by (fastforce simp: scale_feature_Inr)
  from scale_row_loop_total [OF this] show ?thesis by (simp add: scale_row_def)
qed

text \<open>
  Claim C9. For every non-empty sequence of rows, \<open>compute_scaling\<close> returns a strictly
  positive std for every feature, 1 when the population standard deviation is zero, so
  the division of the scaler never divides by zero. The theorem says: on a non-empty
  sequence of rows that each hold every feature, \<open>compute_scaling\<close> returns a scaling;
  and whatever scaling it returns, the rows were not empty, every feature has the entry
  \<open>{mean, std}\<close> with the mean of its column, the std the square root of the population
  variance or 1 when that root is zero, the std strictly positive, and \<open>scale_row\<close> with
  that scaling never raises ZeroDivisionError, on any row.
\<close>

theorem compute_scaling_std_positive:
  "(rows \<noteq> [] \<and> (\<forall>entry \<in> set rows. \<forall>f \<in> set FEATURE_ORDER. map_of entry f \<noteq> None)
      \<longrightarrow> (\<exists>sc. compute_scaling rows = Inr sc)) \<and>
   (\<forall>sc. compute_scaling rows = Inr sc \<longrightarrow>
      rows \<noteq> [] \<and>
      (\<forall>f \<in> set FEATURE_ORDER. \<exists>vals mu sd.
          column rows f = Inr vals \<and>
          map_of sc f = Some [(''mean'', mu), (''std'', sd)] \<and>
          mu = sum_list vals / real (length vals) \<and>
          sd = (let s = sqrt (sum_list (map (\<lambda>v. (v - mu) ^ 2) vals) / real (length vals))
                in if s = 0 then 1 else s) \<and>
          0 < sd) \<and>
      (\<forall>row. scale_row row sc \<noteq> Inl ZeroDivisionError))"
proof (intro conjI allI impI)
  assume ok: "rows \<noteq> [] \<and> (\<forall>entry \<in> set rows. \<forall>f \<in> set FEATURE_ORDER. map_of entry f \<noteq> None)"
  then have "\<forall>f \<in> set FEATURE_ORDER. \<exists>d. feature_scaling rows f = Inr d"
    using feature_scaling_total [of rows] by blast
  from compute_scaling_loop_total [OF this] show "\<exists>sc. compute_scaling rows = Inr sc"
    by (simp add: compute_scaling_def)
next
  fix sc assume sc: "compute_scaling rows = Inr sc"
  then have loop: "\<forall>f \<in> set FEATURE_ORDER. \<exists>d. feature_scaling rows f = Inr d \<and> map_of sc f = Some d"
    and other: "\<forall>f. f \<notin> set FEATURE_ORDER \<longrightarrow> map_of sc f = None"
    using compute_scaling_loop_Inr [of rows FEATURE_ORDER "[]" sc]
    by (simp_all add: compute_scaling_def)
  have "''age'' \<in> set FEATURE_ORDER" by (simp add: FEATURE_ORDER_def)
  with loop obtain d where "feature_scaling rows ''age'' = Inr d" by blast
  from feature_scaling_Inr [OF this] show "rows \<noteq> []" by blast
  show each: "\<forall>f \<in> set FEATURE_ORDER. \<exists>vals mu sd.
          column rows f = Inr vals \<and>
          map_of sc f = Some [(''mean'', mu), (''std'', sd)] \<and>
          mu = sum_list vals / real (length vals) \<and>
          sd = (let s = sqrt (sum_list (map (\<lambda>v. (v - mu) ^ 2) vals) / real (length vals))
                in if s = 0 then 1 else s) \<and>
          0 < sd"
  proof
    fix f assume "f \<in> set FEATURE_ORDER"
    with loop obtain d where d: "feature_scaling rows f = Inr d" and m: "map_of sc f = Some d"
      by blast
    from feature_scaling_Inr [OF d] m show "\<exists>vals mu sd.
          column rows f = Inr vals \<and>
          map_of sc f = Some [(''mean'', mu), (''std'', sd)] \<and>
          mu = sum_list vals / real (length vals) \<and>
          sd = (let s = sqrt (sum_list (map (\<lambda>v. (v - mu) ^ 2) vals) / real (length vals))
                in if s = 0 then 1 else s) \<and>
          0 < sd"
      by auto
  qed
  fix row
  show "scale_row row sc \<noteq> Inl ZeroDivisionError"
  proof
    assume "scale_row row sc = Inl ZeroDivisionError"
    then obtain f where f: "f \<in> set FEATURE_ORDER"
      and bad: "scale_feature row sc f = Inl ZeroDivisionError"
      using scale_row_loop_error [of row sc FEATURE_ORDER ZeroDivisionError]
      by (auto simp: scale_row_def)
    have "\<And>st. map_of sc f = Some st \<Longrightarrow> \<exists>sd. map_of st ''std'' = Some sd \<and> sd \<noteq> 0"
      using each f by fastforce
    from scale_feature_no_zero_division [OF this] bad show False by blast
  qed
qed

theorem compute_scaling_std_positive_witness:
  "[constant_row 1, constant_row 5] \<noteq> [] \<and>
   (\<exists>sc. compute_scaling [constant_row 1, constant_row 5] = Inr sc \<and>
         (\<exists>mu sd. map_of sc ''age'' = Some [(''mean'', mu), (''std'', sd)] \<and> 0 < sd) \<and>
         scale_row (constant_row 1) sc \<noteq> Inl ZeroDivisionError)"
proof -
  let ?rows = "[constant_row 1, constant_row 5]"
  have complete: "?rows \<noteq> [] \<and> (\<forall>entry \<in> set ?rows. \<forall>f \<in> set FEATURE_ORDER. map_of entry f \<noteq> None)"
    by (simp add: constant_row_def FEATURE_ORDER_def)
  have age: "''age'' \<in> set FEATURE_ORDER"
    by (simp add: FEATURE_ORDER_def)
  from complete compute_scaling_std_positive [of ?rows]
  obtain sc where sc: "compute_scaling ?rows = Inr sc" by blast
  with compute_scaling_std_positive [of ?rows] age
  have "\<exists>mu sd. map_of sc ''age'' = Some [(''mean'', mu), (''std'', sd)] \<and> 0 < sd"
    and "scale_row (constant_row 1) sc \<noteq> Inl ZeroDivisionError"
    by blast+
  with sc show ?thesis by blast
qed

section \<open>The request vector\<close>

lemma vector_entry_Inr:
  "vector_entry sc row f = Inr y \<longleftrightarrow>
   (\<exists>x. map_of row f = Some x \<and>
      (case map_of sc f of
         None \<Rightarrow> y = x
       | Some st \<Rightarrow> if st = [] then y = x else zscore x st = Inr y))"
  by (auto simp: vector_entry_def getitem_def split: option.splits)

lemma vector_entry_ok_iff:
  "(\<exists>y. vector_entry sc row f = Inr y) \<longleftrightarrow>
   map_of row f \<noteq> None \<and> scaling_entry_ok (map_of sc f)"
  by (auto simp: vector_entry_Inr zscore_Inr scaling_entry_ok_def split: option.splits)

lemma request_vector_loop_Inr:
  "request_vector_loop sc row fs acc = Inr v \<Longrightarrow>
   \<exists>xs. v = acc @ xs \<and> length xs = length fs \<and>
        (\<forall>i < length fs. vector_entry sc row (fs ! i) = Inr (xs ! i))"
proof (induction fs arbitrary: acc)
  case Nil
  then show ?case by simp
next
  case (Cons f fs)
  from Cons.prems obtain x where x: "vector_entry sc row f = Inr x"
    and rest: "request_vector_loop sc row fs (acc @ [x]) = Inr v"
    by (auto split: sum.splits)
  from Cons.IH [OF rest] obtain xs where xs: "v = (acc @ [x]) @ xs" "length xs = length fs"
    "\<forall>i < length fs. vector_entry sc row (fs ! i) = Inr (xs ! i)"
    by blast
  have "\<forall>i < length (f # fs). vector_entry sc row ((f # fs) ! i) = Inr ((x # xs) ! i)"
    using x xs(3) by (auto simp: nth_Cons split: nat.splits)
  with xs(1,2) show ?case
    by (intro exI [of _ "x # xs"]) simp
qed

lemma request_vector_loop_total:
  "\<forall>f \<in> set fs. \<exists>x. vector_entry sc row f = Inr x \<Longrightarrow>
   \<exists>v. request_vector_loop sc row fs acc = Inr v"
  by (induction fs arbitrary: acc) (auto split: sum.splits)

lemma chest_pain_code: "\<exists>n. getitem CHEST_PAIN_MAPPING (ChestPainEnum_value c) = Inr n"
  by (cases c) (simp_all add: CHEST_PAIN_MAPPING_def getitem_def)

lemma rest_ecg_code: "\<exists>n. getitem REST_ECG_MAPPING (RestECGEnum_value c) = Inr n"
  by (cases c) (simp_all add: REST_ECG_MAPPING_def getitem_def)

lemma slope_code: "\<exists>n. getitem SLOPE_MAPPING (SlopeEnum_value c) = Inr n"
  by (cases c) (simp_all add: SLOPE_MAPPING_def getitem_def)

lemma thal_code: "\<exists>n. getitem THAL_MAPPING (ThalEnum_value c) = Inr n"
  by (cases c) (simp_all add: THAL_MAPPING_def getitem_def)

text \<open>
  The row never raises, holds exactly the thirteen features, and its fbs entry is the
  threshold on the sugar level.
\<close>

lemma request_row_Inr:
  "\<exists>row. request_row payload = Inr row \<and> map fst row = FEATURE_ORDER \<and>
         map_of row ''fbs'' = Some (if sugar_level payload \<ge> 126 then 1 else 0) \<and>
         map_of row ''age'' = Some (real_of_int (age payload))"
proof -
  obtain cp where cp: "getitem CHEST_PAIN_MAPPING (ChestPainEnum_value (chest_pain_type payload)) = Inr cp"
    using chest_pain_code by blast
  obtain ecg where ecg: "getitem REST_ECG_MAPPING (RestECGEnum_value (resting_ecg payload)) = Inr ecg"
    using rest_ecg_code by blast
  obtain slp where slp: "getitem SLOPE_MAPPING (SlopeEnum_value (slope payload)) = Inr slp"
    using slope_code by blast
  obtain th where th: "getitem THAL_MAPPING (ThalEnum_value (thalassemia payload)) = Inr th"
    using thal_code by blast
  show ?thesis
    unfolding request_row_def cp ecg slp th
    by (subst dict_of_pairs_distinct) (simp_all add: FEATURE_ORDER_def)
qed

lemma request_vector_Inr:
  assumes "request_vector self payload = Inr v"
  shows "\<exists>row. request_row payload = Inr row \<and> length v = length (feature_order self) \<and>
           (\<forall>i < length (feature_order self).
               vector_entry (scaling self) row (feature_order self ! i) = Inr (v ! i))"
proof -
  from assms obtain row where row: "request_row payload = Inr row"
    and loop: "request_vector_loop (scaling self) row (feature_order self) [] = Inr v"
    by (auto simp: request_vector_def split: sum.splits)
  from request_vector_loop_Inr [OF loop] row show ?thesis by auto
qed

lemma request_vector_returns_iff:
  "(\<exists>v. request_vector self payload = Inr v) \<longleftrightarrow>
   list_all (\<lambda>feature. feature \<in> set FEATURE_ORDER \<and>
                        scaling_entry_ok (map_of (scaling self) feature))
            (feature_order self)"
proof -
  obtain row where row: "request_row payload = Inr row" and keys: "map fst row = FEATURE_ORDER"
    using request_row_Inr [of payload] by blast
  have dom: "\<And>f. map_of row f \<noteq> None \<longleftrightarrow> f \<in> set FEATURE_ORDER"
  proof -
    fix f
    have "map_of row f \<noteq> None \<longleftrightarrow> f \<in> fst ` set row"
      by (metis domIff dom_map_of_conv_image_fst)
    also have "fst ` set row = set (map fst row)" by simp
    finally show "map_of row f \<noteq> None \<longleftrightarrow> f \<in> set FEATURE_ORDER" by (simp add: keys)
  qed
  show ?thesis
  proof
    assume "\<exists>v. request_vector self payload = Inr v"
    then obtain v where v: "request_vector self payload = Inr v" ..
    from request_vector_Inr [OF v] row
    have "\<forall>i < length (feature_order self).
            \<exists>y. vector_entry (scaling self) row (feature_order self ! i) = Inr y"
      by auto
    then have "\<forall>f \<in> set (feature_order self). \<exists>y. vector_entry (scaling self) row f = Inr y"
      by (metis in_set_conv_nth)
    then show "list_all (\<lambda>feature. feature \<in> set FEATURE_ORDER \<and>
                        scaling_entry_ok (map_of (scaling self) feature)) (feature_order self)"
      using vector_entry_ok_iff [of "scaling self" row] dom by (simp add: list_all_iff)
  next
    assume "list_all (\<lambda>feature. feature \<in> set FEATURE_ORDER \<and>
                        scaling_entry_ok (map_of (scaling self) feature)) (feature_order self)"
    then have "\<forall>f \<in> set (feature_order self). \<exists>y. vector_entry (scaling self) row f = Inr y"
      using vector_entry_ok_iff [of "scaling self" row] dom by (simp add: list_all_iff)
    from request_vector_loop_total [OF this] row
    show "\<exists>v. request_vector self payload = Inr v"
      by (simp add: request_vector_def)
  qed
qed

lemma request_row_example:
  "request_row example_request =
     Inr [(''age'', 50), (''sex'', 0), (''cp'', 3), (''trestbps'', 118), (''chol'', 180),
          (''fbs'', 0), (''restecg'', 0), (''thalach'', 150), (''exang'', 0),
          (''oldpeak'', 0), (''slope'', 1), (''ca'', 0), (''thal'', 3)]"
  by (simp add: request_row_def example_request_def getitem_def CHEST_PAIN_MAPPING_def
        REST_ECG_MAPPING_def SLOPE_MAPPING_def THAL_MAPPING_def dict_of_pairs_def)

lemma example_row_age: "\<exists>row. request_row example_request = Inr row \<and> map_of row ''age'' = Some 50"
  using request_row_Inr [of example_request] by (auto simp: example_request_def)

text \<open>
  Claim C7. For every feature with scaling parameters \<open>{mean, std}\<close>, a value equal to
  the mean scales to 0, in the training-time scaler and in the inference-time vector.
  The theorem says, for scaling parameters \<open>st\<close> whose mean is \<open>mu\<close>: whenever
  \<open>scale_row\<close> returns a vector, its entry is 0 at every feature whose row value is
  \<open>mu\<close> and whose parameters are \<open>st\<close>; whenever \<open>request_vector\<close> returns a vector,
  its entry is 0 at every position of \<open>feature_order\<close> whose raw value is \<open>mu\<close> and
  whose parameters are \<open>st\<close>; and when the std of \<open>st\<close> is not zero, the z-score of
  \<open>mu\<close> itself is returned and is 0. (With a zero std the division raises, and neither
  scaler returns a vector.)
\<close>

theorem scaling_the_mean_gives_zero:
  assumes "map_of st ''mean'' = Some mu"
  shows "(\<forall>row sc v i. scale_row row sc = Inr v \<and> i < length FEATURE_ORDER \<and>
             map_of row (FEATURE_ORDER ! i) = Some mu \<and>
             map_of sc (FEATURE_ORDER ! i) = Some st \<longrightarrow> v ! i = 0) \<and>
         (\<forall>self payload row v i. request_vector self payload = Inr v \<and>
             request_row payload = Inr row \<and> i < length (feature_order self) \<and>
             map_of row (feature_order self ! i) = Some mu \<and>
             map_of (scaling self) (feature_order self ! i) = Some st \<longrightarrow> v ! i = 0) \<and>
         (\<forall>sd. map_of st ''std'' = Some sd \<and> sd \<noteq> 0 \<longrightarrow> zscore mu st = Inr 0)"
proof (intro conjI allI impI)
  fix row sc v i
  assume h: "scale_row row sc = Inr v \<and> i < length FEATURE_ORDER \<and>
             map_of row (FEATURE_ORDER ! i) = Some mu \<and>
             map_of sc (FEATURE_ORDER ! i) = Some st"
  then have "scale_feature row sc (FEATURE_ORDER ! i) = Inr (v ! i)"
    using scale_row_loop_Inr [of row sc FEATURE_ORDER v] by (simp add: scale_row_def)
  with h assms show "v ! i = 0" by (auto simp: scale_feature_Inr)
next
  fix self payload row v i
  assume h: "request_vector self payload = Inr v \<and>
             request_row payload = Inr row \<and> i < length (feature_order self) \<and>
             map_of row (feature_order self ! i) = Some mu \<and>
             map_of (scaling self) (feature_order self ! i) = Some st"
  from assms have ne: "st \<noteq> []" by auto
  from h request_vector_Inr [of self payload v]
  have "vector_entry (scaling self) row (feature_order self ! i) = Inr (v ! i)" by auto
  with h ne have "zscore mu st = Inr (v ! i)" by (simp add: vector_entry_Inr)
  with assms show "v ! i = 0" by (auto simp: zscore_Inr)
next
  fix sd assume "map_of st ''std'' = Some sd \<and> sd \<noteq> 0"
  with assms show "zscore mu st = Inr 0" by (simp add: zscore_Inr)
qed

theorem scaling_the_mean_gives_zero_witness:
  "(\<exists>v. scale_row (constant_row 3) (uniform_scaling 3 2) = Inr v \<and> v ! 0 = 0) \<and>
   (\<exists>v. request_vector toy_predictor example_request = Inr v \<and> v ! 0 = 0) \<and>
   zscore 50 [(''mean'', 50), (''std'', 10)] = Inr 0"
proof (intro conjI)
  let ?st = "[(''mean'', 3), (''std'', 2 :: real)]"
  have "\<exists>v. scale_row (constant_row 3) (uniform_scaling 3 2) = Inr v"
    by (rule scale_row_returns) (simp add: constant_row_def uniform_scaling_def FEATURE_ORDER_def)
  then obtain v where v: "scale_row (constant_row 3) (uniform_scaling 3 2) = Inr v" ..
  have "map_of ?st ''mean'' = Some 3" by simp
  from scaling_the_mean_gives_zero [OF this]
  have "scale_row (constant_row 3) (uniform_scaling 3 2) = Inr v \<and> 0 < length FEATURE_ORDER \<and>
        map_of (constant_row 3) (FEATURE_ORDER ! 0) = Some 3 \<and>
        map_of (uniform_scaling 3 2) (FEATURE_ORDER ! 0) = Some ?st \<longrightarrow> v ! 0 = 0"
    by blast
  with v have "v ! 0 = 0"
    by (simp add: constant_row_def uniform_scaling_def FEATURE_ORDER_def)
  with v show "\<exists>v. scale_row (constant_row 3) (uniform_scaling 3 2) = Inr v \<and> v ! 0 = 0" by blast
next
  let ?st = "[(''mean'', 50), (''std'', 10 :: real)]"
  obtain row where row: "request_row example_request = Inr row" "map_of row ''age'' = Some 50"
    using example_row_age by blast
  have "\<exists>v. request_vector toy_predictor example_request = Inr v"
    unfolding request_vector_returns_iff
    by (simp add: toy_predictor_def FEATURE_ORDER_def scaling_entry_ok_def)
  then obtain v where v: "request_vector toy_predictor example_request = Inr v" ..
  have "map_of ?st ''mean'' = Some 50" by simp
  from scaling_the_mean_gives_zero [OF this]
  have "request_vector toy_predictor example_request = Inr v \<and>
        request_row example_request = Inr row \<and> 0 < length (feature_order toy_predictor) \<and>
        map_of row (feature_order toy_predictor ! 0) = Some 50 \<and>
        map_of (scaling toy_predictor) (feature_order toy_predictor ! 0) = Some ?st
        \<longrightarrow> v ! 0 = 0"
    by blast
  with v row have "v ! 0 = 0" by (simp add: toy_predictor_def)
  with v show "\<exists>v. request_vector toy_predictor example_request = Inr v \<and> v ! 0 = 0" by blast
next
  let ?st = "[(''mean'', 50), (''std'', 10 :: real)]"
  have "map_of ?st ''mean'' = Some 50" by simp
  from scaling_the_mean_gives_zero [OF this]
  show "zscore 50 ?st = Inr 0" by simp
qed

text \<open>
  Claim C6, as amended. The fbs entry of the constructed vector is not 1.0 or 0.0 when
  the model has scaling parameters for fbs: the raw value is the threshold (1 when the
  sugar level is at least 126, else 0), and the entry of the vector is its z-score. The
  theorem says: at every position of \<open>feature_order\<close> that holds the name fbs, the
  entry of a returned vector is the raw threshold value when the scaling has no entry,
  or an empty one, for fbs, and \<open>(raw - mean) / std\<close> otherwise; and the vector is the
  same whatever the request's smoker and diabetic flags are.
\<close>

theorem fbs_entry_is_scaled_threshold:
  assumes "request_vector self payload = Inr v"
    and "i < length (feature_order self)"
    and "feature_order self ! i = ''fbs''"
  shows "(let raw = (if sugar_level payload \<ge> 126 then 1 else 0) in
          case map_of (scaling self) ''fbs'' of
            None \<Rightarrow> v ! i = raw
          | Some st \<Rightarrow>
              if st = [] then v ! i = raw
              else \<exists>mu sd. map_of st ''mean'' = Some mu \<and> map_of st ''std'' = Some sd \<and>
                           sd \<noteq> 0 \<and> v ! i = (raw - mu) / sd) \<and>
         request_vector self (payload\<lparr>smoker := s, diabetic := d\<rparr>) = Inr v"
proof
  obtain row where row: "request_row payload = Inr row"
    and fbs: "map_of row ''fbs'' = Some (if sugar_level payload \<ge> 126 then 1 else 0)"
    using request_row_Inr [of payload] by blast
  from request_vector_Inr [OF assms(1)] row assms(2,3)
  have "vector_entry (scaling self) row ''fbs'' = Inr (v ! i)" by auto
  with fbs show "let raw = (if sugar_level payload \<ge> 126 then 1 else 0) in
          case map_of (scaling self) ''fbs'' of
            None \<Rightarrow> v ! i = raw
          | Some st \<Rightarrow>
              if st = [] then v ! i = raw
              else \<exists>mu sd. map_of st ''mean'' = Some mu \<and> map_of st ''std'' = Some sd \<and>
                           sd \<noteq> 0 \<and> v ! i = (raw - mu) / sd"
    by (auto simp: vector_entry_Inr zscore_Inr Let_def split: option.splits)
  have "request_row (payload\<lparr>smoker := s, diabetic := d\<rparr>) = request_row payload"
    by (simp add: request_row_def cong: sum.case_cong)
  with assms(1) show "request_vector self (payload\<lparr>smoker := s, diabetic := d\<rparr>) = Inr v"
    by (simp add: request_vector_def)
qed

theorem fbs_entry_is_scaled_threshold_witness:
  "request_vector fbs_predictor (example_request\<lparr>sugar_level := 130\<rparr>) = Inr [2] \<and>
   (\<exists>mu sd. map_of [(''mean'', 1 / 5), (''std'', 2 / 5 :: real)] ''mean'' = Some mu \<and>
            map_of [(''mean'', 1 / 5), (''std'', 2 / 5 :: real)] ''std'' = Some sd \<and>
            sd \<noteq> 0 \<and> [2] ! 0 = (1 - mu) / sd) \<and>
   request_vector fbs_predictor (example_request\<lparr>sugar_level := 130, smoker := True, diabetic := True\<rparr>)
     = Inr [2]"
proof -
  let ?req = "example_request\<lparr>sugar_level := 130\<rparr>"
  have v: "request_vector fbs_predictor ?req = Inr [2]"
    by (simp add: request_vector_def request_row_def example_request_def getitem_def
        CHEST_PAIN_MAPPING_def REST_ECG_MAPPING_def SLOPE_MAPPING_def THAL_MAPPING_def
        dict_of_pairs_def fbs_predictor_def vector_entry_def zscore_def)
  have i: "0 < length (feature_order fbs_predictor)" and f: "feature_order fbs_predictor ! 0 = ''fbs''"
    by (simp_all add: fbs_predictor_def)
  from fbs_entry_is_scaled_threshold [OF v i f, of True True] v
  show ?thesis
    by (simp add: fbs_predictor_def example_request_def)
qed

text \<open>
  Claim C6 as stated fails: with scaling parameters mean 1/5 and std 2/5 for fbs, the
  fbs entry of the vector is 2 for a sugar level of 130 and -1/2 for a sugar level of 95.
\<close>

theorem fbs_entry_counterexample:
  "feature_order fbs_predictor ! 0 = ''fbs'' \<and>
   sugar_level (example_request\<lparr>sugar_level := 130\<rparr>) \<ge> 126 \<and>
   request_vector fbs_predictor (example_request\<lparr>sugar_level := 130\<rparr>) = Inr [2] \<and>
   sugar_level example_request < 126 \<and>
   request_vector fbs_predictor example_request = Inr [- (1 / 2)]"
  by (simp add: request_vector_def request_row_def example_request_def getitem_def
        CHEST_PAIN_MAPPING_def REST_ECG_MAPPING_def SLOPE_MAPPING_def THAL_MAPPING_def
        dict_of_pairs_def fbs_predictor_def vector_entry_def zscore_def)

section \<open>predict\<close>

lemma predict_probability_bounds:
  "0 < predict_probability self v \<and> predict_probability self v < 1"
proof -
  define c where "c = max (min (sum_list (map (\<lambda>(weight, x). weight * x) (zip (weights self) v))
                              + bias self) 60) (- 60)"
  have p: "predict_probability self v = 1 / (1 + exp (- c))"
    by (simp add: predict_probability_def c_def Let_def)
  define d where "d = 1 + exp (- c)"
  have "0 < exp (- c)" by simp
  then have d: "1 < d" by (simp add: d_def)
  then have "0 < 1 / d" and "1 / d < 1" by simp_all
  then show ?thesis unfolding p d_def by simp
qed

lemma chart_loop_returns_iff:
  "(\<exists>c. chart_loop sts fs acc = Inr c) \<longleftrightarrow>
   list_all (\<lambda>field. chart_entry_ok (map_of sts field)) (map fst fs)"
proof (induction fs arbitrary: acc)
  case Nil
  then show ?case by simp
next
  case (Cons p fs)
  obtain field val where p: "p = (field, val)" by (cases p)
  show ?case
  proof (cases "map_of sts field")
    case None
    then show ?thesis using Cons.IH [of acc] by (simp add: p chart_entry_ok_def)
  next
    case (Some st)
    show ?thesis
    proof (cases "st = []")
      case True
      with Some show ?thesis using Cons.IH [of acc] by (simp add: p chart_entry_ok_def)
    next
      case False
      show ?thesis
      proof (cases "map_of st ''healthy_low'' \<noteq> None \<and> map_of st ''healthy_high'' \<noteq> None \<and>
                    map_of st ''mean'' \<noteq> None")
        case True
        then obtain lo hi avg where k: "map_of st ''healthy_low'' = Some lo"
          "map_of st ''healthy_high'' = Some hi" "map_of st ''mean'' = Some avg"
          by auto
        show ?thesis
          using Cons.IH [of "acc @ [\<lparr>label = chart_label field, user_value = val,
                      recommended = \<lparr>low = lo, high = hi\<rparr>, population_avg = avg\<rparr>]"]
          by (simp add: p Some False k getitem_def chart_entry_ok_def)
      next
        case bad: False
        then have "\<exists>e. chart_loop sts (p # fs) acc = Inl e"
          by (auto simp: p Some False getitem_def split: option.splits)
        moreover from bad have "\<not> chart_entry_ok (map_of sts field)"
          by (auto simp: Some False chart_entry_ok_def)
        ultimately show ?thesis by (auto simp: p)
      qed
    qed
  qed
qed

lemma chart_data_returns_iff:
  "(\<exists>c. chart_data self payload = Inr c) \<longleftrightarrow>
   list_all (\<lambda>field. chart_entry_ok (map_of (p_stats self) field))
     [''bp_systolic'', ''cholesterol'', ''max_heart_rate'', ''sugar_level'']"
  unfolding chart_data_def chart_loop_returns_iff by simp

lemma predict_Inr:
  "predict self payload = Inr r \<longleftrightarrow>
   weights self \<noteq> [] \<and>
   (\<exists>v c. request_vector self payload = Inr v \<and> chart_data self payload = Inr c \<and>
      r = \<lparr>resp_name = name payload,
           risk_category = categorize_risk (predict_probability self v),
           risk_score = py_round2 (predict_probability self v * 100),
           probability = predict_probability self v,
           classification = (if predict_probability self v \<ge> 0.5 then 1 else 0),
           advisory_message =
             (if categorize_risk (predict_probability self v) = ''High''
              then ''High myocardial infarction risk detected.''
              else ''Risk is manageable with standard precautions.''),
           chart = c,
           key_insights = insights self payload,
           feature_importance = p_feature_importance self,
           recommended_actions =
             recommendations (categorize_risk (predict_probability self v)) payload\<rparr>)"
  by (auto simp: predict_def Let_def split: sum.splits)

lemma predict_returns_iff:
  "(\<exists>r. predict self payload = Inr r) \<longleftrightarrow> well_formed_predictor self"
proof -
  have "(\<exists>r. predict self payload = Inr r) \<longleftrightarrow>
        weights self \<noteq> [] \<and> (\<exists>v. request_vector self payload = Inr v) \<and>
        (\<exists>c. chart_data self payload = Inr c)"
    unfolding predict_Inr by blast
  then show ?thesis
    unfolding request_vector_returns_iff chart_data_returns_iff well_formed_predictor_def .
qed

lemma toy_prediction:
  "predict toy_predictor example_request =
     Inr \<lparr>resp_name = ''Asha'', risk_category = ''Moderate'', risk_score = 50,
          probability = 1 / 2, classification = 1,
          advisory_message = ''Risk is manageable with standard precautions.'',
          chart = [], key_insights = [INSIGHT_NONE],
          feature_importance = [(''age'', 1)],
          recommended_actions = [REC_LOG, REC_SHARE, REC_LIPID, REC_NITRATE]\<rparr>"
proof -
  have v: "request_vector toy_predictor example_request = Inr [0]"
    by (simp add: request_vector_def request_row_example toy_predictor_def vector_entry_def
          zscore_def getitem_def)
  have p: "predict_probability toy_predictor [0] = 1 / 2"
    by (simp add: predict_probability_def toy_predictor_def)
  have c: "chart_data toy_predictor example_request = Inr []"
    by (simp add: chart_data_def toy_predictor_def)
  have k: "categorize_risk (1 / 2) = ''Moderate''"
    by (simp add: categorize_risk_def)
  have i: "insights toy_predictor example_request = [INSIGHT_NONE]"
    by (simp add: insights_def toy_predictor_def example_request_def dict_get_def Let_def)
  have r: "recommendations ''Moderate'' example_request = [REC_LOG, REC_SHARE, REC_LIPID, REC_NITRATE]"
    by (simp add: recommendations_def example_request_def Let_def)
  have s: "py_round2 50 = 50"
    by (simp add: py_round2_def Let_def)
  have n: "name example_request = ''Asha''" by (simp add: example_request_def)
  have w: "weights toy_predictor \<noteq> []" and f: "p_feature_importance toy_predictor = [(''age'', 1)]"
    by (simp_all add: toy_predictor_def)
  show ?thesis
    unfolding predict_Inr by (simp add: v p c k i r s n w f)
qed

text \<open>
  Claim C1. For every valid prediction request, \<open>predict\<close> returns a probability in
  [0,1] and a classification in {0,1}, and the classification is 1 if and only if the
  probability is at least 0.5. The theorem says: \<open>predict\<close> returns a response exactly
  when the predictor is well formed (for every request: the request's enumerations
  cannot make it raise), and every response it returns has a probability between 0 and
  1, a classification that is 0 or 1, and the classification 1 exactly when the
  probability is at least 0.5.
\<close>

theorem predict_probability_and_classification:
  "((\<exists>r. predict self payload = Inr r) \<longleftrightarrow> well_formed_predictor self) \<and>
   (\<forall>r. predict self payload = Inr r \<longrightarrow>
        0 \<le> probability r \<and> probability r \<le> 1 \<and>
        classification r \<in> {0, 1} \<and>
        (classification r = 1 \<longleftrightarrow> probability r \<ge> 0.5))"
proof (intro conjI allI impI)
  show "(\<exists>r. predict self payload = Inr r) \<longleftrightarrow> well_formed_predictor self"
    by (rule predict_returns_iff)
next
  fix r assume "predict self payload = Inr r"
  then obtain v where p: "probability r = predict_probability self v"
    and c: "classification r = (if predict_probability self v \<ge> 0.5 then 1 else 0)"
    unfolding predict_Inr by auto
  from predict_probability_bounds [of self v] p
  show "0 \<le> probability r" and "probability r \<le> 1" by simp_all
  from c show "classification r \<in> {0, 1}" by simp
  from c p show "classification r = 1 \<longleftrightarrow> probability r \<ge> 0.5" by simp
qed

theorem predict_probability_and_classification_witness:
  "well_formed_predictor toy_predictor \<and>
   (\<exists>r. predict toy_predictor example_request = Inr r \<and>
        0 \<le> probability r \<and> probability r \<le> 1 \<and> classification r = 1 \<and>
        probability r \<ge> 0.5)"
proof -
  note t = predict_probability_and_classification [of toy_predictor example_request]
  from toy_prediction obtain r where r: "predict toy_predictor example_request = Inr r"
    and c: "classification r = 1"
    by simp
  from t r have wf: "well_formed_predictor toy_predictor" by blast
  from t r c have "0 \<le> probability r \<and> probability r \<le> 1 \<and> probability r \<ge> 0.5" by blast
  with wf r c show ?thesis by blast
qed

text \<open>
  Claim C2. The risk category is a function of the probability alone: Low on [0, 0.33),
  Moderate on [0.33, 0.66), High on [0.66, 1]. The theorem says, for every real \<open>p\<close>
  (so for every \<open>p\<close> of [0, 1]): the category is Low exactly when \<open>p < 0.33\<close>, Moderate
  exactly when \<open>0.33 \<le> p < 0.66\<close>, High exactly when \<open>0.66 \<le> p\<close>; and the category
  of every response \<open>predict\<close> returns is \<open>categorize_risk\<close> of that response's
  probability, whatever the predictor and the request are.
\<close>

theorem risk_category_of_probability:
  "(categorize_risk p = ''Low'' \<longleftrightarrow> p < 0.33) \<and>
   (categorize_risk p = ''Moderate'' \<longleftrightarrow> 0.33 \<le> p \<and> p < 0.66) \<and>
   (categorize_risk p = ''High'' \<longleftrightarrow> 0.66 \<le> p) \<and>
   (\<forall>self payload r. predict self payload = Inr r \<longrightarrow>
        risk_category r = categorize_risk (probability r))"
proof (intro conjI allI impI)
  show "categorize_risk p = ''Low'' \<longleftrightarrow> p < 0.33"
    by (simp add: categorize_risk_def)
  show "categorize_risk p = ''Moderate'' \<longleftrightarrow> 0.33 \<le> p \<and> p < 0.66"
    by (simp add: categorize_risk_def)
  show "categorize_risk p = ''High'' \<longleftrightarrow> 0.66 \<le> p"
    by (simp add: categorize_risk_def)
next
  fix self payload r
  assume "predict self payload = Inr r"
  then show "risk_category r = categorize_risk (probability r)"
    unfolding predict_Inr by auto
qed

theorem risk_category_of_probability_witness:
  "categorize_risk (1 / 2) = ''Moderate'' \<and>
   (\<exists>r. predict toy_predictor example_request = Inr r \<and> probability r = 1 / 2 \<and>
        risk_category r = ''Moderate'')"
proof -
  note t = risk_category_of_probability [of "1 / 2"]
  from t have m: "categorize_risk (1 / 2) = ''Moderate''" by simp
  from toy_prediction obtain r where r: "predict toy_predictor example_request = Inr r"
    and p: "probability r = 1 / 2"
    by simp
  from t r have "risk_category r = categorize_risk (probability r)" by blast
  with m have "risk_category r = ''Moderate''" unfolding p by simp
  with m r p show ?thesis by blast
qed

section \<open>Insights and recommendations\<close>

lemma insights_calories:
  "INSIGHT_CALORIES \<in> set (insights self payload) \<longleftrightarrow>
   calories_burned payload
     < dict_get (dict_get (p_stats self) ''calories_burned'' []) ''healthy_low'' 1500"
  by (simp add: insights_def Let_def INSIGHT_CALORIES_def INSIGHT_BP_def INSIGHT_CHOLESTEROL_def
        INSIGHT_ANGINA_def INSIGHT_SUGAR_def INSIGHT_NONE_def)

lemma recommendations_walk:
  "REC_WALK \<in> set (recommendations risk payload) \<longleftrightarrow> calories_burned payload < 1500"
  by (simp add: recommendations_def Let_def REC_WALK_def REC_LOG_def REC_SHARE_def REC_LIPID_def
        REC_NITRATE_def REC_SUGAR_def)

text \<open>
  Claim C5 says that a calorie burn below the healthy-low bound of the calories\_burned
  stats always gives both the low-activity insight and the activity recommendation.
  \<open>insights\<close> reads the bound from the stats (1500 when the stats have none), and
  \<open>recommendations\<close> compares with the constant 1500. With a bound of 2000 in the stats
  and a calorie burn of 1800, \<open>predict\<close> returns a response that holds the insight and
  not the recommendation.
\<close>

theorem low_activity_insight_without_recommendation:
  "calories_burned (example_request\<lparr>calories_burned := 1800\<rparr>)
     < dict_get (dict_get (p_stats strict_stats_predictor) ''calories_burned'' []) ''healthy_low'' 1500 \<and>
   (\<exists>r. predict strict_stats_predictor (example_request\<lparr>calories_burned := 1800\<rparr>) = Inr r \<and>
        INSIGHT_CALORIES \<in> set (key_insights r) \<and>
        REC_WALK \<notin> set (recommended_actions r))"
proof -
  let ?R = "example_request\<lparr>calories_burned := 1800\<rparr>"
  have low: "calories_burned ?R
     < dict_get (dict_get (p_stats strict_stats_predictor) ''calories_burned'' []) ''healthy_low'' 1500"
    by (simp add: strict_stats_predictor_def toy_predictor_def dict_get_def)
  have "well_formed_predictor strict_stats_predictor"
    by (simp add: well_formed_predictor_def strict_stats_predictor_def toy_predictor_def
          FEATURE_ORDER_def scaling_entry_ok_def chart_entry_ok_def)
  then obtain r where r: "predict strict_stats_predictor ?R = Inr r"
    using predict_returns_iff by blast
  then have k: "key_insights r = insights strict_stats_predictor ?R"
    and a: "\<exists>risk. recommended_actions r = recommendations risk ?R"
    unfolding predict_Inr by auto
  from k low have "INSIGHT_CALORIES \<in> set (key_insights r)"
    by (simp add: insights_calories)
  moreover from a have "REC_WALK \<notin> set (recommended_actions r)"
    by (auto simp: recommendations_walk)
  ultimately show ?thesis using low r by blast
qed

section \<open>normalize\_importance\<close>

lemma map_fst_map_values: "map fst (map (\<lambda>(k, w). (k, g w)) ps) = map fst ps"
  by (induction ps) auto

lemma map_snd_map_values: "map snd (map (\<lambda>(k, w). (k, g w)) ps) = map g (map snd ps)"
  by (induction ps) auto

lemma normalize_importance_eq:
  "normalize_importance ws =
     (let s = sum_list (map abs (take (length FEATURE_ORDER) ws));
          total = (if s = 0 then 1 else s)
      in map (\<lambda>(feature, w). (feature, \<bar>w\<bar> / total)) (zip FEATURE_ORDER ws))"
proof -
  let ?raw = "map (\<lambda>(feature, weight). (feature, \<bar>weight\<bar>)) (zip FEATURE_ORDER ws)"
  have fst_raw: "map fst ?raw = take (length ws) FEATURE_ORDER"
    by (simp only: map_fst_map_values map_fst_zip_take) (simp add: min_def)
  have d: "distinct (map fst ?raw)"
    unfolding fst_raw using distinct_FEATURE_ORDER by (rule distinct_take)
  have raw: "dict_of_pairs ?raw = ?raw"
    using d by (rule dict_of_pairs_distinct)
  have vals: "dict_values ?raw = map abs (take (length FEATURE_ORDER) ws)"
    unfolding dict_values_def by (simp only: map_snd_map_values map_snd_zip_take) (simp add: min_def)
  have "\<And>t. distinct (map fst (map (\<lambda>(feature, v). (feature, v / t)) ?raw))"
    using d by (simp only: map_fst_map_values)
  then have out: "\<And>t. dict_of_pairs (map (\<lambda>(feature, v). (feature, v / t)) ?raw)
                      = map (\<lambda>(feature, v). (feature, v / t)) ?raw"
    by (rule dict_of_pairs_distinct)
  show ?thesis
    unfolding normalize_importance_def raw vals Let_def out
    by (simp add: case_prod_unfold comp_def)
qed

lemma sum_list_abs_zero_iff: "sum_list (map abs xs) = 0 \<longleftrightarrow> (\<forall>x \<in> set xs. x = (0::real))"
proof (induction xs)
  case Nil
  then show ?case by simp
next
  case (Cons x xs)
  have "0 \<le> sum_list (map abs xs)" by (rule sum_list_nonneg) auto
  then have "\<bar>x\<bar> + sum_list (map abs xs) = 0 \<longleftrightarrow> x = 0 \<and> sum_list (map abs xs) = 0"
    by auto
  with Cons.IH show ?case by simp
qed

lemma example_importance:
  "normalize_importance example_weights =
     [(''age'', 3 / 8), (''sex'', 1 / 8), (''cp'', 0), (''trestbps'', 0), (''chol'', 0),
      (''fbs'', 0), (''restecg'', 0), (''thalach'', 0), (''exang'', 0), (''oldpeak'', 0),
      (''slope'', 0), (''ca'', 0), (''thal'', 1 / 2)]"
  by (simp add: normalize_importance_eq example_weights_def FEATURE_ORDER_def)

text \<open>
  Claim C3, as amended. The feature-importance map has one entry for each weight that
  is paired with a feature (the first features of \<open>FEATURE_ORDER\<close>, as many as there are
  weights and thirteen at most), its values are never negative, and it is empty only
  for the empty weight vector. The values sum to 1 when one of the paired weights is
  not zero. When all of them are zero, \<open>total\<close> is replaced by 1 and every entry has the
  importance 0, so the values sum to 0: for thirteen zero weights the map holds the
  thirteen features, each at 0.
\<close>

theorem normalize_importance_sums:
  "(\<forall>v \<in> set (dict_values (normalize_importance ws)). 0 \<le> v) \<and>
   map fst (normalize_importance ws) = take (length ws) FEATURE_ORDER \<and>
   (normalize_importance ws = [] \<longleftrightarrow> ws = []) \<and>
   ((\<exists>w \<in> set (take (length FEATURE_ORDER) ws). w \<noteq> 0) \<longrightarrow>
      sum_list (dict_values (normalize_importance ws)) = 1) \<and>
   ((\<forall>w \<in> set (take (length FEATURE_ORDER) ws). w = 0) \<longrightarrow>
      normalize_importance ws = map (\<lambda>feature. (feature, 0)) (take (length ws) FEATURE_ORDER) \<and>
      sum_list (dict_values (normalize_importance ws)) = 0)"
proof -
  define us where "us = take (length FEATURE_ORDER) ws"
  define s where "s = sum_list (map abs us)"
  define total where "total = (if s = 0 then 1 else s)"
  have ni: "normalize_importance ws
            = map (\<lambda>(feature, w). (feature, \<bar>w\<bar> / total)) (zip FEATURE_ORDER ws)"
    by (simp add: normalize_importance_eq Let_def total_def s_def us_def)
  have vals: "dict_values (normalize_importance ws) = map (\<lambda>w. \<bar>w\<bar> / total) us"
    unfolding ni dict_values_def us_def
    by (simp only: map_snd_map_values map_snd_zip_take) (simp add: min_def)
  have keys: "map fst (normalize_importance ws) = take (length ws) FEATURE_ORDER"
    unfolding ni by (simp only: map_fst_map_values map_fst_zip_take) (simp add: min_def)
  have empty: "normalize_importance ws = [] \<longleftrightarrow> ws = []"
  proof -
    have "normalize_importance ws = [] \<longleftrightarrow> take (length ws) FEATURE_ORDER = []"
      using keys by (metis map_is_Nil_conv)
    also have "\<dots> \<longleftrightarrow> ws = []" by (simp add: FEATURE_ORDER_def)
    finally show ?thesis .
  qed
  have s0: "0 \<le> s" unfolding s_def by (rule sum_list_nonneg) auto
  then have tpos: "0 < total" by (simp add: total_def)
  have nonneg: "\<forall>v \<in> set (dict_values (normalize_importance ws)). 0 \<le> v"
    using tpos by (auto simp: vals)
  have sum: "sum_list (dict_values (normalize_importance ws)) = s / total"
    unfolding vals s_def by (induction us) (simp_all add: add_divide_distrib)
  have one: "(\<exists>w \<in> set us. w \<noteq> 0) \<longrightarrow> sum_list (dict_values (normalize_importance ws)) = 1"
  proof
    assume "\<exists>w \<in> set us. w \<noteq> 0"
    then have "s \<noteq> 0" unfolding s_def sum_list_abs_zero_iff by blast
    then show "sum_list (dict_values (normalize_importance ws)) = 1"
      by (simp add: sum total_def)
  qed
  have zero: "(\<forall>w \<in> set us. w = 0) \<longrightarrow>
      normalize_importance ws = map (\<lambda>feature. (feature, 0)) (take (length ws) FEATURE_ORDER) \<and>
      sum_list (dict_values (normalize_importance ws)) = 0"
  proof
    assume z: "\<forall>w \<in> set us. w = 0"
    then have sz: "s = 0" unfolding s_def sum_list_abs_zero_iff .
    have "map (\<lambda>w. \<bar>w\<bar> / total) us = replicate (length us) 0"
      using z by (simp add: map_replicate_const [symmetric] cong: map_cong)
    then have v0: "map snd (normalize_importance ws) = replicate (length us) 0"
      using vals by (simp add: dict_values_def)
    have "normalize_importance ws
            = zip (map fst (normalize_importance ws)) (map snd (normalize_importance ws))"
      by (simp add: zip_map_fst_snd)
    also have "\<dots> = zip (take (length ws) FEATURE_ORDER) (replicate (length us) 0)"
      by (simp only: keys v0)
    also have "\<dots> = map (\<lambda>feature. (feature, 0)) (take (length us) (take (length ws) FEATURE_ORDER))"
      by (rule zip_replicate2)
    also have "take (length us) (take (length ws) FEATURE_ORDER) = take (length ws) FEATURE_ORDER"
      by (simp add: us_def min_def)
    finally have "normalize_importance ws
                    = map (\<lambda>feature. (feature, 0)) (take (length ws) FEATURE_ORDER)" .
    moreover have "sum_list (dict_values (normalize_importance ws)) = 0"
      by (simp add: sum sz)
    ultimately show "normalize_importance ws
                    = map (\<lambda>feature. (feature, 0)) (take (length ws) FEATURE_ORDER) \<and>
      sum_list (dict_values (normalize_importance ws)) = 0" by blast
  qed
  from nonneg keys empty one zero show ?thesis unfolding us_def by blast
qed

theorem normalize_importance_sums_witness:
  "1 / 8 \<in> set (dict_values (normalize_importance example_weights)) \<and>
   sum_list (dict_values (normalize_importance example_weights)) = 1 \<and>
   normalize_importance zero_weights = map (\<lambda>feature. (feature, 0)) FEATURE_ORDER \<and>
   normalize_importance [0, 0] = [(''age'', 0), (''sex'', 0)] \<and>
   normalize_importance [] = []"
proof -
  have m: "1 / 8 \<in> set (dict_values (normalize_importance example_weights))"
    by (simp add: example_importance dict_values_def)
  with normalize_importance_sums [of example_weights] have "(0::real) \<le> 1 / 8" by blast
  have "\<exists>w \<in> set (take (length FEATURE_ORDER) example_weights). w \<noteq> 0"
    by (simp add: example_weights_def FEATURE_ORDER_def)
  with normalize_importance_sums [of example_weights]
  have a: "sum_list (dict_values (normalize_importance example_weights)) = 1" by blast
  have "\<forall>w \<in> set (take (length FEATURE_ORDER) zero_weights). w = 0"
    by (simp add: zero_weights_def FEATURE_ORDER_def)
  with normalize_importance_sums [of zero_weights]
  have "normalize_importance zero_weights
          = map (\<lambda>feature. (feature, 0)) (take (length zero_weights) FEATURE_ORDER)"
    by blast
  then have z: "normalize_importance zero_weights = map (\<lambda>feature. (feature, 0)) FEATURE_ORDER"
    by (simp add: zero_weights_def FEATURE_ORDER_def)
  have "\<forall>w \<in> set (take (length FEATURE_ORDER) [0, 0 :: real]). w = 0"
    by (simp add: FEATURE_ORDER_def)
  with normalize_importance_sums [of "[0, 0]"]
  have "normalize_importance [0, 0]
          = map (\<lambda>feature. (feature, 0)) (take (length [0, 0 :: real]) FEATURE_ORDER)"
    by blast
  then have t: "normalize_importance [0, 0] = [(''age'', 0), (''sex'', 0)]"
    by (simp add: FEATURE_ORDER_def)
  from normalize_importance_sums [of "[]"] have e: "normalize_importance [] = []" by blast
  from m a z t e show ?thesis by blast
qed

text \<open>
  Claim C3 as stated fails on thirteen zero weights: the map gives each of the thirteen
  features the importance 0, so it is not empty and its values sum to 0.
\<close>

theorem normalize_importance_zero_counterexample:
  "normalize_importance zero_weights = map (\<lambda>feature. (feature, 0)) FEATURE_ORDER \<and>
   normalize_importance zero_weights \<noteq> [] \<and>
   sum_list (dict_values (normalize_importance zero_weights)) = 0"
  by (simp add: normalize_importance_eq zero_weights_def FEATURE_ORDER_def dict_values_def)

section \<open>Persisting and loading the artifact\<close>

text \<open>
  Claim C4, as amended. With the model and stats files there, both holding a JSON
  object: when one of the keys \<open>feature_order\<close>, \<open>weights\<close>, \<open>bias\<close>, \<open>scaling\<close> is
  absent from the model document, \<open>load_artifacts\<close> raises KeyError for an absent key;
  when the four keys are there and the report file is absent or holds a JSON object, it
  returns, and the loaded values are the document's, whatever they are (no length is
  compared); when the four keys are there and the report file holds a document that is
  not an object, it raises AttributeError.
\<close>

theorem load_artifacts_required_keys:
  assumes "fs (model_path st) = Some (JObj kvs)"
    and "fs (stats_path st) = Some (JObj skvs)"
  shows "((\<exists>k \<in> set [''feature_order'', ''weights'', ''bias'', ''scaling'']. map_of kvs k = None)
            \<longrightarrow> (\<exists>k \<in> set [''feature_order'', ''weights'', ''bias'', ''scaling''].
                     map_of kvs k = None \<and> load_artifacts st fs = Inl (KeyError k))) \<and>
         ((\<forall>k \<in> set [''feature_order'', ''weights'', ''bias'', ''scaling'']. map_of kvs k \<noteq> None) \<and>
          (fs (report_path st) = None \<or> (\<exists>rkvs. fs (report_path st) = Some (JObj rkvs)))
            \<longrightarrow> (\<exists>a. load_artifacts st fs = Inr a \<and>
                     map_of kvs ''feature_order'' = Some (raw_feature_order a) \<and>
                     map_of kvs ''weights'' = Some (raw_weights a) \<and>
                     map_of kvs ''bias'' = Some (raw_bias a) \<and>
                     map_of kvs ''scaling'' = Some (raw_scaling a))) \<and>
         ((\<forall>k \<in> set [''feature_order'', ''weights'', ''bias'', ''scaling'']. map_of kvs k \<noteq> None) \<and>
          (\<exists>doc. fs (report_path st) = Some doc \<and> (\<forall>rkvs. doc \<noteq> JObj rkvs))
            \<longrightarrow> load_artifacts st fs = Inl AttributeError)"
proof (intro conjI impI)
  assume "\<exists>k \<in> set [''feature_order'', ''weights'', ''bias'', ''scaling'']. map_of kvs k = None"
  with assms
  show "\<exists>k \<in> set [''feature_order'', ''weights'', ''bias'', ''scaling''].
          map_of kvs k = None \<and> load_artifacts st fs = Inl (KeyError k)"
    by (auto simp: load_artifacts_def subscript_def getitem_def split: option.splits)
next
  assume h: "(\<forall>k \<in> set [''feature_order'', ''weights'', ''bias'', ''scaling'']. map_of kvs k \<noteq> None) \<and>
          (fs (report_path st) = None \<or> (\<exists>rkvs. fs (report_path st) = Some (JObj rkvs)))"
  then obtain fo ws b sc where k: "map_of kvs ''feature_order'' = Some fo"
    "map_of kvs ''weights'' = Some ws" "map_of kvs ''bias'' = Some b"
    "map_of kvs ''scaling'' = Some sc"
    by auto
  from h have "fs (report_path st) = None \<or> (\<exists>rkvs. fs (report_path st) = Some (JObj rkvs))" ..
  then show "\<exists>a. load_artifacts st fs = Inr a \<and>
                     map_of kvs ''feature_order'' = Some (raw_feature_order a) \<and>
                     map_of kvs ''weights'' = Some (raw_weights a) \<and>
                     map_of kvs ''bias'' = Some (raw_bias a) \<and>
                     map_of kvs ''scaling'' = Some (raw_scaling a)"
  proof
    assume "fs (report_path st) = None"
    with assms k show ?thesis
      by (simp add: load_artifacts_def subscript_def json_get_def getitem_def)
  next
    assume "\<exists>rkvs. fs (report_path st) = Some (JObj rkvs)"
    then obtain rkvs where "fs (report_path st) = Some (JObj rkvs)" ..
    with assms k show ?thesis
      by (simp add: load_artifacts_def subscript_def json_get_def getitem_def)
  qed
next
  assume h: "(\<forall>k \<in> set [''feature_order'', ''weights'', ''bias'', ''scaling'']. map_of kvs k \<noteq> None) \<and>
          (\<exists>doc. fs (report_path st) = Some doc \<and> (\<forall>rkvs. doc \<noteq> JObj rkvs))"
  then obtain fo ws b sc where k: "map_of kvs ''feature_order'' = Some fo"
    "map_of kvs ''weights'' = Some ws" "map_of kvs ''bias'' = Some b"
    "map_of kvs ''scaling'' = Some sc"
    by auto
  from h obtain doc where d: "fs (report_path st) = Some doc" "\<forall>rkvs. doc \<noteq> JObj rkvs"
    by blast
  from d(2) have "json_get doc ''feature_importance'' (JObj []) = Inl AttributeError"
    by (cases doc) (simp_all add: json_get_def)
  with assms k d(1) show "load_artifacts st fs = Inl AttributeError"
    by (simp add: load_artifacts_def subscript_def json_get_def getitem_def)
qed

theorem load_artifacts_required_keys_witness:
  "load_artifacts default_settings missing_weights_files = Inl (KeyError ''weights'') \<and>
   (\<exists>a. load_artifacts default_settings mismatched_files = Inr a \<and>
        raw_feature_order a = JArr [JStr ''age'', JStr ''sex''] \<and>
        raw_weights a = JArr [JNum 1]) \<and>
   load_artifacts default_settings array_report_files = Inl AttributeError"
proof (intro conjI)
  let ?kvs = "[(''feature_order'', JArr [JStr ''age'']), (''bias'', JNum 0),
               (''scaling'', JObj [])]"
  have m: "missing_weights_files (model_path default_settings) = Some (JObj ?kvs)"
    and s: "missing_weights_files (stats_path default_settings) = Some (JObj [])"
    by (simp_all add: missing_weights_files_def default_settings_def)
  from load_artifacts_required_keys [OF m s]
  have "\<exists>k \<in> set [''feature_order'', ''weights'', ''bias'', ''scaling''].
          map_of ?kvs k = None \<and>
          load_artifacts default_settings missing_weights_files = Inl (KeyError k)"
    by simp
  then show "load_artifacts default_settings missing_weights_files = Inl (KeyError ''weights'')"
    by auto
next
  let ?kvs = "[(''feature_order'', JArr [JStr ''age'', JStr ''sex'']),
           (''weights'', JArr [JNum 1]), (''bias'', JNum 0), (''scaling'', JObj [])]"
  have m: "mismatched_files (model_path default_settings) = Some (JObj ?kvs)"
    and s: "mismatched_files (stats_path default_settings) = Some (JObj [])"
    and r: "mismatched_files (report_path default_settings) = None"
    by (simp_all add: mismatched_files_def mismatched_model_def default_settings_def)
  from load_artifacts_required_keys [OF m s] r
  show "\<exists>a. load_artifacts default_settings mismatched_files = Inr a \<and>
        raw_feature_order a = JArr [JStr ''age'', JStr ''sex''] \<and>
        raw_weights a = JArr [JNum 1]"
    by auto
next
  have m: "array_report_files (model_path default_settings) = Some (JObj toy_payload)"
    and s: "array_report_files (stats_path default_settings) = Some (JObj [])"
    and r: "array_report_files (report_path default_settings) = Some (JArr [])"
    by (simp_all add: array_report_files_def default_settings_def)
  have k: "\<forall>k \<in> set [''feature_order'', ''weights'', ''bias'', ''scaling'']. map_of toy_payload k \<noteq> None"
    by (simp add: toy_payload_def)
  have "\<exists>doc. array_report_files (report_path default_settings) = Some doc \<and>
          (\<forall>rkvs. doc \<noteq> JObj rkvs)"
    using r by simp
  with load_artifacts_required_keys [OF m s] k
  show "load_artifacts default_settings array_report_files = Inl AttributeError"
    by blast
qed

text \<open>
  Claim C4 as stated fails: a model document with two feature names and one weight is
  loaded without an error.
\<close>

theorem load_artifacts_length_counterexample:
  "load_artifacts default_settings mismatched_files =
     Inr \<lparr>raw_feature_order = JArr [JStr ''age'', JStr ''sex''],
          raw_weights = JArr [JNum 1],
          raw_bias = JNum 0,
          raw_scaling = JObj [],
          raw_stats = JObj [],
          raw_feature_importance = JObj []\<rparr>"
  by (simp add: load_artifacts_def mismatched_files_def mismatched_model_def default_settings_def
        subscript_def json_get_def getitem_def dict_get_def)

text \<open>
  Claim C8. Persisting a model artifact and loading it back yields the same
  \<open>feature_order\<close>, \<open>weights\<close> and \<open>bias\<close>. The theorem says: when the settings give the
  model file a path of its own (not the path of the stats file, nor of the report file,
  which are written after it), and the payload holds the four keys of a model artifact,
  then after \<open>persist_artifacts\<close>, from any file system and with any feature stats and
  report, \<open>load_artifacts\<close> returns, and the loaded feature order, weights, bias and
  scaling are the payload's.
\<close>

theorem persist_then_load:
  assumes "model_path st \<noteq> stats_path st" and "model_path st \<noteq> report_path st"
    and "map_of payload ''feature_order'' = Some fo"
    and "map_of payload ''weights'' = Some ws"
    and "map_of payload ''bias'' = Some b"
    and "map_of payload ''scaling'' = Some sc"
  shows "\<exists>a. load_artifacts st (persist_artifacts st payload feature_stats report fs) = Inr a \<and>
             raw_feature_order a = fo \<and> raw_weights a = ws \<and> raw_bias a = b \<and>
             raw_scaling a = sc"
proof -
  let ?fs = "persist_artifacts st payload feature_stats report fs"
  have m: "?fs (model_path st) = Some (JObj payload)"
    using assms(1,2) by (simp add: persist_artifacts_def Let_def)
  have r: "?fs (report_path st) = Some (JObj report)"
    by (simp add: persist_artifacts_def Let_def)
  have "?fs (stats_path st) = Some (JObj report) \<or>
        ?fs (stats_path st) = Some (JObj [(''feature_stats'', JObj feature_stats)])"
    by (simp add: persist_artifacts_def Let_def)
  then obtain skvs where s: "?fs (stats_path st) = Some (JObj skvs)" by blast
  show ?thesis
    by (simp add: load_artifacts_def m r s assms(3-6) subscript_def json_get_def getitem_def)
qed

theorem persist_then_load_witness:
  "\<exists>a. load_artifacts default_settings
          (persist_artifacts default_settings toy_payload [] [] Map.empty) = Inr a \<and>
       raw_feature_order a = JArr [JStr ''age''] \<and> raw_weights a = JArr [JNum 1] \<and>
       raw_bias a = JNum 0"
proof -
  have p: "model_path default_settings \<noteq> stats_path default_settings"
    "model_path default_settings \<noteq> report_path default_settings"
    by (simp_all add: default_settings_def)
  have k: "map_of toy_payload ''feature_order'' = Some (JArr [JStr ''age''])"
    "map_of toy_payload ''weights'' = Some (JArr [JNum 1])"
    "map_of toy_payload ''bias'' = Some (JNum 0)"
    "map_of toy_payload ''scaling''
       = Some (JObj [(''age'', JObj [(''mean'', JNum 50), (''std'', JNum 10)])])"
    by (simp_all add: toy_payload_def)
  from persist_then_load [OF p k, of "[]" "[]" Map.empty]
  show ?thesis by blast
qed

section \<open>Further properties of the inference engine\<close>

lemma insights_sugar:
  "INSIGHT_SUGAR \<in> set (insights self payload) \<longleftrightarrow> sugar_level payload \<ge> 126"
  by (simp add: insights_def Let_def INSIGHT_CALORIES_def INSIGHT_BP_def INSIGHT_CHOLESTEROL_def
        INSIGHT_ANGINA_def INSIGHT_SUGAR_def INSIGHT_NONE_def)

lemma recommendations_sugar:
  "REC_SUGAR \<in> set (recommendations risk payload) \<longleftrightarrow> sugar_level payload \<ge> 126"
  by (simp add: recommendations_def Let_def REC_WALK_def REC_LOG_def REC_SHARE_def REC_LIPID_def
        REC_NITRATE_def REC_SUGAR_def)

lemma well_formed_toy: "well_formed_predictor toy_predictor"
  by (simp add: well_formed_predictor_def toy_predictor_def FEATURE_ORDER_def
        scaling_entry_ok_def chart_entry_ok_def)

text \<open>
  The score is the sigmoid of the trainer: \<open>_predict_probability\<close> applies to the linear
  score the function \<open>sigmoid\<close> of the training pipeline.
\<close>

theorem predict_probability_is_sigmoid:
  "predict_probability self v
     = sigmoid (sum_list (map (\<lambda>(weight, x). weight * x) (zip (weights self) v)) + bias self)"
  by (simp add: predict_probability_def sigmoid_def)

text \<open>
  Every response to a request whose fasting sugar is at least 126 holds the
  possible-diabetes insight and the glycemic-control recommendation, whatever the other
  fields and the predictor are.
\<close>

theorem high_sugar_insight_and_recommendation:
  assumes "predict self payload = Inr r" and "sugar_level payload \<ge> 126"
  shows "INSIGHT_SUGAR \<in> set (key_insights r) \<and> REC_SUGAR \<in> set (recommended_actions r)"
proof -
  from assms(1) have "key_insights r = insights self payload"
    and "\<exists>risk. recommended_actions r = recommendations risk payload"
    unfolding predict_Inr by auto
  with assms(2) show ?thesis
    by (auto simp: insights_sugar recommendations_sugar)
qed

theorem high_sugar_insight_and_recommendation_witness:
  "\<exists>r. predict toy_predictor (example_request\<lparr>sugar_level := 130\<rparr>) = Inr r \<and>
       INSIGHT_SUGAR \<in> set (key_insights r) \<and> REC_SUGAR \<in> set (recommended_actions r)"
proof -
  let ?R = "example_request\<lparr>sugar_level := 130\<rparr>"
  from well_formed_toy obtain r where r: "predict toy_predictor ?R = Inr r"
    using predict_returns_iff by blast
  have "sugar_level ?R \<ge> 126" by simp
  from high_sugar_insight_and_recommendation [OF r this] r show ?thesis by blast
qed

text \<open>
  The scenario of the toy artifact: with the single feature age, the weight 1, the bias
  0 and the scaling parameters mean 50 and std 10, every response to a request of age 50
  has the probability 1/2, the classification 1 and the category Moderate.
\<close>

theorem toy_artifact_scenario:
  assumes "feature_order self = [''age'']" and "weights self = [1]" and "bias self = 0"
    and "scaling self = [(''age'', [(''mean'', 50), (''std'', 10)])]"
    and "age payload = 50"
    and "predict self payload = Inr r"
  shows "probability r = 1 / 2 \<and> classification r = 1 \<and> risk_category r = ''Moderate''"
proof -
  from assms(6) obtain v where v: "request_vector self payload = Inr v"
    and p: "probability r = predict_probability self v"
    and c: "classification r = (if predict_probability self v \<ge> 0.5 then 1 else 0)"
    and k: "risk_category r = categorize_risk (predict_probability self v)"
    unfolding predict_Inr by auto
  obtain row where row: "request_row payload = Inr row" "map_of row ''age'' = Some 50"
    using request_row_Inr [of payload] assms(5) by auto
  from request_vector_Inr [OF v] row(1) assms(1)
  have len: "length v = 1" and e: "vector_entry (scaling self) row ''age'' = Inr (v ! 0)"
    by auto
  from e row(2) have "v ! 0 = 0"
    by (simp add: vector_entry_Inr zscore_Inr assms(4))
  with len have "v = [0]" by (cases v) auto
  then have "predict_probability self v = 1 / 2"
    by (simp add: predict_probability_def assms(2,3))
  with p c k show ?thesis by (simp add: categorize_risk_def)
qed

theorem toy_artifact_scenario_witness:
  "\<exists>r. predict toy_predictor example_request = Inr r \<and>
       probability r = 1 / 2 \<and> classification r = 1 \<and> risk_category r = ''Moderate''"
proof -
  from well_formed_toy obtain r where r: "predict toy_predictor example_request = Inr r"
    using predict_returns_iff by blast
  have "feature_order toy_predictor = [''age'']" "weights toy_predictor = [1]"
    "bias toy_predictor = 0"
    "scaling toy_predictor = [(''age'', [(''mean'', 50), (''std'', 10)])]"
    "age example_request = 50"
    by (simp_all add: toy_predictor_def example_request_def)
  from toy_artifact_scenario [OF this r] r show ?thesis by blast
qed

text \<open>
  The two thresholds on the calorie burn, in every response: the low-activity insight is
  there exactly when the calorie burn is below the healthy-low bound of the stats (1500
  when the stats give none), and the activity recommendation exactly when it is below
  1500.
\<close>

theorem low_activity_thresholds:
  assumes "predict self payload = Inr r"
  shows "(INSIGHT_CALORIES \<in> set (key_insights r) \<longleftrightarrow>
            calories_burned payload
              < dict_get (dict_get (p_stats self) ''calories_burned'' []) ''healthy_low'' 1500) \<and>
         (REC_WALK \<in> set (recommended_actions r) \<longleftrightarrow> calories_burned payload < 1500)"
proof -
  from assms have "key_insights r = insights self payload"
    and "\<exists>risk. recommended_actions r = recommendations risk payload"
    unfolding predict_Inr by auto
  then show ?thesis
    by (auto simp: insights_calories recommendations_walk)
qed

theorem low_activity_thresholds_witness:
  "\<exists>r. predict toy_predictor (example_request\<lparr>calories_burned := 1200\<rparr>) = Inr r \<and>
       INSIGHT_CALORIES \<in> set (key_insights r) \<and> REC_WALK \<in> set (recommended_actions r)"
proof -
  let ?R = "example_request\<lparr>calories_burned := 1200\<rparr>"
  from well_formed_toy obtain r where r: "predict toy_predictor ?R = Inr r"
    using predict_returns_iff by blast
  have "calories_burned ?R
          < dict_get (dict_get (p_stats toy_predictor) ''calories_burned'' []) ''healthy_low'' 1500"
    and "calories_burned ?R < 1500"
    by (simp_all add: toy_predictor_def dict_get_def)
  with low_activity_thresholds [OF r] r show ?thesis by blast
qed

section \<open>The probability in double precision\<close>

lemma round_half_even_ge: "of_int k \<le> z \<Longrightarrow> k \<le> round_half_even z"
proof -
  assume "of_int k \<le> z"
  then have "k \<le> \<lfloor>z\<rfloor>" by (simp add: le_floor_iff)
  then show ?thesis by (simp add: round_half_even_def Let_def)
qed

lemma round_half_even_le: "z \<le> of_int k \<Longrightarrow> round_half_even z \<le> k"
proof (cases "z = of_int k")
  case True
  then show ?thesis by (simp add: round_half_even_def Let_def)
next
  case False
  assume "z \<le> of_int k"
  with False have "z < of_int k" by simp
  then have "\<lfloor>z\<rfloor> < k" by (simp add: floor_less_iff)
  then show ?thesis by (simp add: round_half_even_def Let_def)
qed

lemma floor_log2_bounds:
  assumes "0 < y"
  shows "2 powr of_int \<lfloor>log 2 y\<rfloor> \<le> y" and "y < 2 powr (of_int \<lfloor>log 2 y\<rfloor> + 1)"
  using floor_log_eq_powr_iff [of y 2 "\<lfloor>log 2 y\<rfloor>"] assms by simp_all

lemma round_double_pos_eq:
  assumes "0 < y"
  shows "round_double y
           = of_int (round_half_even (y / 2 powr (of_int \<lfloor>log 2 y\<rfloor> - 52)))
             * 2 powr (of_int \<lfloor>log 2 y\<rfloor> - 52)"
  using assms by (simp add: round_double_def Let_def)

lemma round_double_sandwich:
  assumes "0 < y"
  shows "2 powr of_int \<lfloor>log 2 y\<rfloor> \<le> round_double y"
    and "round_double y \<le> 2 powr (of_int \<lfloor>log 2 y\<rfloor> + 1)"
proof -
  define e where "e = \<lfloor>log 2 y\<rfloor>"
  define ulp :: real where "ulp = 2 powr (of_int e - 52)"
  have ulp_pos: "0 < ulp" by (simp add: ulp_def)
  have lo: "2 powr of_int e \<le> y" and hi: "y < 2 powr (of_int e + 1)"
    using floor_log2_bounds [OF assms] by (simp_all add: e_def)
  have e_ulp: "2 powr of_int e = of_int (2 ^ 52) * ulp"
    by (simp add: ulp_def powr_diff)
  have e1_ulp: "2 powr (of_int e + 1) = of_int (2 ^ 53) * ulp"
    by (simp add: ulp_def powr_diff powr_add)
  have rd: "round_double y = of_int (round_half_even (y / ulp)) * ulp"
    using round_double_pos_eq [OF assms] by (simp add: ulp_def e_def)
  have "of_int (2 ^ 52) \<le> y / ulp"
    using lo ulp_pos by (simp add: e_ulp pos_le_divide_eq)
  then have "2 ^ 52 \<le> round_half_even (y / ulp)" by (rule round_half_even_ge)
  then have "of_int (2 ^ 52) * ulp \<le> of_int (round_half_even (y / ulp)) * ulp"
    using ulp_pos by (simp only: mult_le_cancel_right_pos of_int_le_iff)
  then show "2 powr of_int \<lfloor>log 2 y\<rfloor> \<le> round_double y"
    by (simp only: rd e_ulp e_def [symmetric])
  have "y / ulp \<le> of_int (2 ^ 53)"
    using hi ulp_pos by (simp add: e1_ulp pos_divide_le_eq)
  then have "round_half_even (y / ulp) \<le> 2 ^ 53" by (rule round_half_even_le)
  then have "of_int (round_half_even (y / ulp)) * ulp \<le> of_int (2 ^ 53) * ulp"
    using ulp_pos by (simp only: mult_le_cancel_right_pos of_int_le_iff)
  then show "round_double y \<le> 2 powr (of_int \<lfloor>log 2 y\<rfloor> + 1)"
    by (simp only: rd e1_ulp e_def [symmetric])
qed

lemma round_double_pos: "0 < y \<Longrightarrow> 0 < round_double y"
proof -
  assume y: "0 < y"
  have "0 < (2::real) powr of_int \<lfloor>log 2 y\<rfloor>" by simp
  with round_double_sandwich(1) [OF y] show ?thesis by linarith
qed

lemma round_double_ge_powr:
  assumes "2 powr of_int k \<le> y"
  shows "2 powr of_int k \<le> round_double y"
proof -
  have y: "0 < y" using assms by (rule less_le_trans [rotated]) simp
  from assms y have "of_int k \<le> log 2 y" by (simp add: le_log_iff)
  then have "k \<le> \<lfloor>log 2 y\<rfloor>" by (simp add: le_floor_iff)
  then have "(2::real) powr of_int k \<le> 2 powr of_int \<lfloor>log 2 y\<rfloor>" by simp
  with round_double_sandwich(1) [OF y] show ?thesis by linarith
qed

lemma round_double_powr: "round_double (2 powr of_int k) = 2 powr of_int k"
proof -
  define y :: real where "y = 2 powr of_int k"
  have y: "0 < y" by (simp add: y_def)
  have e: "\<lfloor>log 2 y\<rfloor> = k" by (simp add: y_def)
  have "y / 2 powr (of_int k - 52) = of_int (2 ^ 52)"
    by (simp add: y_def powr_diff)
  then have "round_half_even (y / 2 powr (of_int k - 52)) = 2 ^ 52"
    by (simp only: round_half_even_def Let_def) simp
  then have "round_double y = of_int (2 ^ 52) * 2 powr (of_int k - 52)"
    using round_double_pos_eq [OF y] by (simp only: e)
  also have "\<dots> = 2 powr of_int k"
    by (simp add: powr_diff)
  finally show ?thesis by (simp add: y_def)
qed

lemma round_double_le_powr:
  assumes "0 < y" and "y \<le> 2 powr of_int k"
  shows "round_double y \<le> 2 powr of_int k"
proof (cases "y = 2 powr of_int k")
  case True
  then show ?thesis by (simp add: round_double_powr)
next
  case False
  with assms(2) have "y < 2 powr of_int k" by simp
  with assms(1) have "log 2 y < of_int k" by (simp add: log_less_iff)
  then have "\<lfloor>log 2 y\<rfloor> < k" by (simp add: floor_less_iff)
  then have "\<lfloor>log 2 y\<rfloor> + 1 \<le> k" by simp
  then have "of_int \<lfloor>log 2 y\<rfloor> + 1 \<le> (of_int k :: real)" by linarith
  then have "(2::real) powr (of_int \<lfloor>log 2 y\<rfloor> + 1) \<le> 2 powr of_int k" by simp
  with round_double_sandwich(2) [OF assms(1)] show ?thesis by linarith
qed

lemma round_double_one: "round_double 1 = 1"
  using round_double_powr [of 0] by simp

lemma round_double_ge_one: "1 \<le> y \<Longrightarrow> 1 \<le> round_double y"
  using round_double_ge_powr [of 0 y] by simp

lemma round_double_le_one: "0 < y \<Longrightarrow> y \<le> 1 \<Longrightarrow> round_double y \<le> 1"
  using round_double_le_powr [of y 0] by simp

text \<open>Adding to 1 a number of at most half an ulp of 1 gives 1 back.\<close>

lemma round_double_one_plus:
  assumes "0 \<le> t" and "t \<le> 2 powr (- 53)"
  shows "round_double (1 + t) = 1"
proof -
  have small: "(2::real) powr (- 53) = 1 / 2 ^ 53" by (simp add: powr_minus_divide)
  have y: "0 < 1 + t" using assms(1) by simp
  have t1: "t < 1" using assms(2) unfolding small by (rule le_less_trans) simp
  have e: "\<lfloor>log 2 (1 + t)\<rfloor> = 0"
    using y assms(1) t1 by (simp add: floor_log_eq_powr_iff)
  define z where "z = (1 + t) / 2 powr (- 52)"
  have z: "z = 2 ^ 52 + t * 2 ^ 52"
    by (simp add: z_def powr_minus_divide algebra_simps)
  have th: "t * 2 ^ 52 \<le> 1 / 2" using assms(2) unfolding small by (simp add: field_simps)
  have t0: "0 \<le> t * 2 ^ 52" using assms(1) by simp
  have fl: "\<lfloor>z\<rfloor> = 2 ^ 52"
    unfolding z using t0 th by (simp add: floor_unique)
  have d: "z - of_int \<lfloor>z\<rfloor> = t * 2 ^ 52" by (simp add: fl) (simp add: z)
  have "round_half_even z = 2 ^ 52"
    unfolding round_half_even_def Let_def d using th by (auto simp: fl)
  then have "round_double (1 + t) = of_int (2 ^ 52) * 2 powr (- 52)"
    using round_double_pos_eq [OF y] by (simp add: e z_def)
  also have "\<dots> = 1" by (simp add: powr_minus_divide)
  finally show ?thesis .
qed

lemma exp_minus_60: "exp (- 60 :: real) \<le> 2 powr (- 60)"
proof -
  have "(2::real) \<le> exp 1" using exp_ge_add_one_self [of "1::real"] by simp
  then have "(2::real) ^ 60 \<le> exp 1 ^ 60" by (rule power_mono) simp
  also have "exp (1::real) ^ 60 = exp 60" using exp_of_nat_mult [of 60 "1::real"] by simp
  finally have h: "(2::real) ^ 60 \<le> exp 60" .
  have "inverse (exp (60::real)) \<le> inverse (2 ^ 60)"
    by (rule le_imp_inverse_le [OF h]) simp
  moreover have "exp (- 60 :: real) = inverse (exp 60)" by (rule exp_minus)
  moreover have "(2::real) powr (- 60) = inverse (2 ^ 60)" by (simp add: powr_minus)
  ultimately show ?thesis by (simp only:)
qed

lemma predict_probability_exact_range:
  "1 / (1 + exp 60) \<le> predict_probability self vector \<and>
   predict_probability self vector \<le> 1 / (1 + exp (- 60))"
proof -
  define c where "c = max (min (sum_list (map (\<lambda>(weight, x). weight * x) (zip (weights self) vector))
                              + bias self) 60) (- 60)"
  have p: "predict_probability self vector = 1 / (1 + exp (- c))"
    by (simp add: predict_probability_def c_def Let_def)
  have c: "- 60 \<le> c" "c \<le> 60" by (simp_all add: c_def)
  then have "exp (- 60) \<le> exp (- c)" and "exp (- c) \<le> exp 60" by simp_all
  then have lo: "1 + exp (- 60) \<le> 1 + exp (- c)" and hi: "1 + exp (- c) \<le> 1 + exp 60"
    by simp_all
  have pos: "0 < 1 + exp (- c)" "0 < 1 + exp (- 60 :: real)"
    by (simp_all add: add_pos_pos)
  have "1 / (1 + exp 60) \<le> 1 / (1 + exp (- c))"
    using hi pos(1) by (intro divide_left_mono) (simp_all add: add_pos_pos)
  moreover have "1 / (1 + exp (- c)) \<le> 1 / (1 + exp (- 60))"
    using lo pos by (intro divide_left_mono) (simp_all add: add_pos_pos)
  ultimately show ?thesis unfolding p by blast
qed

lemma predict_probability_double_range:
  assumes "\<forall>x. 0 \<le> fexp x"
  shows "0 < predict_probability_double fexp self vector \<and>
         predict_probability_double fexp self vector \<le> 1"
proof -
  define c where "c = max (min (score_double self vector) 60) (- 60)"
  define d where "d = round_double (1 + fexp (- c))"
  have p: "predict_probability_double fexp self vector = round_double (1 / d)"
    by (simp add: predict_probability_double_def Let_def c_def d_def)
  from assms have "1 \<le> 1 + fexp (- c)" by simp
  then have d: "1 \<le> d" unfolding d_def by (rule round_double_ge_one)
  then have "0 < 1 / d" and "1 / d \<le> 1" by simp_all
  then show ?thesis
    unfolding p by (simp add: round_double_pos round_double_le_one)
qed

lemma predict_probability_double_saturates:
  assumes "60 \<le> score_double self vector"
    and "0 \<le> fexp (- 60)" and "fexp (- 60) \<le> 2 powr (- 53)"
  shows "predict_probability_double fexp self vector = 1"
proof -
  from assms(1) have c: "max (min (score_double self vector) 60) (- 60) = 60" by simp
  have "round_double (1 + fexp (- 60)) = 1"
    using assms(2,3) by (rule round_double_one_plus)
  then show ?thesis
    by (simp add: predict_probability_double_def Let_def c round_double_one)
qed

lemma toy_score_double: "60 \<le> score_double toy_predictor [100]"
proof -
  have k: "(2::real) powr of_int 6 = 64" by simp
  have "(2::real) powr of_int 6 \<le> 1 * 100" by simp
  then have a: "2 powr of_int 6 \<le> round_double (1 * 100)" by (rule round_double_ge_powr)
  then have "2 powr of_int 6 \<le> 0 + round_double (1 * 100)" by simp
  then have b: "2 powr of_int 6 \<le> round_double (0 + round_double (1 * 100))"
    by (rule round_double_ge_powr)
  then have "2 powr of_int 6 \<le> round_double (0 + round_double (1 * 100)) + 0" by simp
  then have "2 powr of_int 6 \<le> round_double (round_double (0 + round_double (1 * 100)) + 0)"
    by (rule round_double_ge_powr)
  then have "64 \<le> score_double toy_predictor [100]"
    unfolding k by (simp add: score_double_def toy_predictor_def)
  then show ?thesis by simp
qed

lemma math_exp_minus_60:
  "0 \<le> math_exp (- 60) \<and> math_exp (- 60) \<le> 2 powr (- 53)"
proof -
  have pos: "0 < exp (- 60 :: real)" by simp
  have "exp (- 60 :: real) \<le> 2 powr of_int (- 60)" using exp_minus_60 by simp
  with pos have "round_double (exp (- 60)) \<le> 2 powr of_int (- 60)"
    by (rule round_double_le_powr)
  moreover have "(2::real) powr of_int (- 60) \<le> 2 powr (- 53)" by simp
  moreover have "0 < round_double (exp (- 60))" using pos by (rule round_double_pos)
  ultimately show ?thesis unfolding math_exp_def by linarith
qed

text \<open>
  Claim C10, as amended. The score is clamped to [-60, 60] before the exponential. In
  exact arithmetic the probability lies in the closed interval from \<open>1/(1+e^60)\<close> to
  \<open>1/(1+e^-60)\<close> and is neither 0 nor 1. In double precision, with any \<open>math.exp\<close>
  whose values are not negative, the probability is greater than 0 and at most 1: it
  is never 0, and it is exactly 1 whenever the score is at least 60 and
  \<open>math.exp(-60)\<close> is at most \<open>2^-53\<close>, since \<open>1.0 + math.exp(-60)\<close> then rounds to 1.
\<close>

theorem probability_range_exact_and_double:
  assumes "\<forall>x. 0 \<le> fexp x"
  shows "1 / (1 + exp 60) \<le> predict_probability self vector \<and>
         predict_probability self vector \<le> 1 / (1 + exp (- 60)) \<and>
         0 < predict_probability self vector \<and> predict_probability self vector < 1 \<and>
         0 < predict_probability_double fexp self vector \<and>
         predict_probability_double fexp self vector \<le> 1 \<and>
         (60 \<le> score_double self vector \<and> fexp (- 60) \<le> 2 powr (- 53)
            \<longrightarrow> predict_probability_double fexp self vector = 1)"
proof -
  have "60 \<le> score_double self vector \<and> fexp (- 60) \<le> 2 powr (- 53)
          \<longrightarrow> predict_probability_double fexp self vector = 1"
    using assms predict_probability_double_saturates [of self vector fexp] by blast
  with predict_probability_exact_range [of self vector]
    predict_probability_bounds [of self vector]
    predict_probability_double_range [OF assms, of self vector]
  show ?thesis by blast
qed

theorem probability_range_exact_and_double_witness:
  "0 < predict_probability_double math_exp toy_predictor [100] \<and>
   predict_probability_double math_exp toy_predictor [100] = 1 \<and>
   1 / (1 + exp 60) \<le> predict_probability toy_predictor [100] \<and>
   predict_probability toy_predictor [100] < 1"
proof -
  have nonneg: "\<forall>x. 0 \<le> math_exp x"
  proof
    fix x :: real
    have "0 < round_double (exp x)" by (rule round_double_pos) simp
    then show "0 \<le> math_exp x" by (simp add: math_exp_def)
  qed
  note t = probability_range_exact_and_double
    [of math_exp toy_predictor "[100]", OF nonneg]
  from t toy_score_double math_exp_minus_60
  have "predict_probability_double math_exp toy_predictor [100] = 1"
    by blast
  with t show ?thesis by blast
qed

text \<open>
  Claim C10 as stated fails in double precision: with the weight 1, the bias 0 and the
  vector entry 100 the score is clamped to 60, \<open>1.0 + math.exp(-60)\<close> rounds to 1, and
  the probability is exactly 1, above \<open>1/(1+e^-60)\<close>.
\<close>

theorem probability_exactly_one_counterexample:
  "predict_probability_double math_exp toy_predictor [100] = 1 \<and>
   1 / (1 + exp (- 60)) < (1::real)"
proof
  show "predict_probability_double math_exp toy_predictor [100] = 1"
    using toy_score_double math_exp_minus_60
    by (intro predict_probability_double_saturates) simp_all
  define d :: real where "d = 1 + exp (- 60)"
  have "0 < exp (- 60 :: real)" by simp
  then have "1 < d" by (simp add: d_def)
  then have "1 / d < 1" by simp
  then show "1 / (1 + exp (- 60)) < (1::real)" by (simp only: d_def)
qed

end
